theory Spec2Isabelle
  imports Complex_Main "HOL-Library.AList"
begin

section \<open>JavaScript values, diagnostics and exceptions\<close>

text \<open>
  The library is dynamically typed: a blend mode, a creation option or a layer reference
  can be any JavaScript value. The values that the code tells apart are modelled by
  \<open>jsval\<close>. A number is an integer here: layer ids are produced by a counter that starts
  at 0, and every other number (a fraction, NaN) behaves like an integer that is no id.
\<close>

datatype jsval = JUndefined | JNull | JBool bool | JNum int | JStr string

text \<open>
  Every \<open>console.warn\<close> and \<open>console.error\<close> call of the source is one constructor;
  the console is the list of diagnostics printed so far.
\<close>

datatype diag =
    WarnUnknownBlendMode jsval
  | WarnInvalidBlendMode jsval
  | WarnInvalidMaskSource
  | ErrorCreatingFramebuffer string
  | ErrorCannotBegin string
  | ErrorCannotEnd string
  | WarnLayerHasNoFramebuffer string
  | ErrorFailedToCreateShader
  | WarnShaderNotAvailable
  | WarnLayerNotFound jsval
  | ErrorLayerNotFound jsval
  | WarnAlreadyActive int
  | WarnNoActiveLayer

text \<open>What a call can throw: an \<open>Error\<close> of the library, an exception of the render
  host, or the \<open>TypeError\<close> of a method call on \<open>null\<close>.\<close>

datatype exn = LibError string | HostError | TypeError

section \<open>Blend mode table\<close>

text \<open>\<open>BlendModes\<close>: each entry's value is its own name, in declaration order.\<close>

definition BlendModes :: "string list" where
  "BlendModes =
    [''NORMAL'', ''MULTIPLY'', ''SCREEN'', ''ADD'', ''SUBTRACT'', ''OVERLAY'',
     ''SOFT_LIGHT'', ''HARD_LIGHT'', ''COLOR_DODGE'', ''COLOR_BURN'', ''DARKEN'',
     ''LIGHTEN'', ''DIFFERENCE'', ''EXCLUSION'']"

definition NORMAL :: jsval where
  "NORMAL = JStr ''NORMAL''"

text \<open>
  \<open>getBlendModeIndex(mode)\<close>: a \<open>switch\<close> with strict equality against the fourteen
  strings; the default branch warns and returns 0. The result is the returned opcode
  together with the diagnostics printed.
\<close>

definition getBlendModeIndex :: "jsval \<Rightarrow> int \<times> diag list" where
  "getBlendModeIndex m =
    (if m = JStr ''NORMAL'' then (0, [])
     else if m = JStr ''MULTIPLY'' then (1, [])
     else if m = JStr ''SCREEN'' then (2, [])
     else if m = JStr ''ADD'' then (3, [])
     else if m = JStr ''SUBTRACT'' then (4, [])
     else if m = JStr ''OVERLAY'' then (5, [])
     else if m = JStr ''SOFT_LIGHT'' then (6, [])
     else if m = JStr ''HARD_LIGHT'' then (7, [])
     else if m = JStr ''COLOR_DODGE'' then (8, [])
     else if m = JStr ''COLOR_BURN'' then (9, [])
     else if m = JStr ''DARKEN'' then (10, [])
     else if m = JStr ''LIGHTEN'' then (11, [])
     else if m = JStr ''DIFFERENCE'' then (12, [])
     else if m = JStr ''EXCLUSION'' then (13, [])
     else (0, [WarnUnknownBlendMode m]))"

text \<open>\<open>Object.values(BlendModes).includes(mode)\<close>.\<close>

definition isBlendMode :: "jsval \<Rightarrow> bool" where
  "isBlendMode m = (case m of JStr s \<Rightarrow> s \<in> set BlendModes | _ \<Rightarrow> False)"

section \<open>The blending program (\<open>compositorFragSource\<close>)\<close>

text \<open>
  GLSL vectors. A \<open>float\<close> is modelled as a real number: the rounding of the GPU's
  arithmetic is not modelled, the branches and the formulas of the program are.
\<close>

datatype vec3 = Vec3 (red: real) (green: real) (blue: real)

datatype vec4 = Vec4 (red4: real) (green4: real) (blue4: real) (alpha: real)

definition rgb :: "vec4 \<Rightarrow> vec3" where
  "rgb c = Vec3 (red4 c) (green4 c) (blue4 c)"

definition vec4_of :: "vec3 \<Rightarrow> real \<Rightarrow> vec4" where
  "vec4_of v a = Vec4 (red v) (green v) (blue v) a"

text \<open>Component-wise operators of GLSL on \<open>vec3\<close>.\<close>

definition vzip :: "(real \<Rightarrow> real \<Rightarrow> real) \<Rightarrow> vec3 \<Rightarrow> vec3 \<Rightarrow> vec3" where
  "vzip f v w = Vec3 (f (red v) (red w)) (f (green v) (green w)) (f (blue v) (blue w))"

definition vsplat :: "real \<Rightarrow> vec3" where
  "vsplat x = Vec3 x x x"

definition vadd :: "vec3 \<Rightarrow> vec3 \<Rightarrow> vec3" where
  "vadd v w = vzip (+) v w"

definition vsub :: "vec3 \<Rightarrow> vec3 \<Rightarrow> vec3" where
  "vsub v w = vzip (-) v w"

definition vmul :: "vec3 \<Rightarrow> vec3 \<Rightarrow> vec3" where
  "vmul v w = vzip (*) v w"

definition vscale :: "vec3 \<Rightarrow> real \<Rightarrow> vec3" where
  "vscale v k = Vec3 (red v * k) (green v * k) (blue v * k)"

definition vmin :: "vec3 \<Rightarrow> vec3 \<Rightarrow> vec3" where
  "vmin v w = vzip min v w"

definition vmax :: "vec3 \<Rightarrow> vec3 \<Rightarrow> vec3" where
  "vmax v w = vzip max v w"

definition vabs :: "vec3 \<Rightarrow> vec3" where
  "vabs v = Vec3 \<bar>red v\<bar> \<bar>green v\<bar> \<bar>blue v\<bar>"

text \<open>
  Every three-argument overload \<open>blendX(base, blend, opacity)\<close> of the program has the
  body \<open>blendX(base, blend) * opacity + base * (1.0 - opacity)\<close>.
\<close>

definition withOpacity :: "vec3 \<Rightarrow> vec3 \<Rightarrow> real \<Rightarrow> vec3" where
  "withOpacity blended base opacity = vadd (vscale blended opacity) (vscale base (1 - opacity))"

definition blendNormal :: "vec3 \<Rightarrow> vec3 \<Rightarrow> vec3" where
  "blendNormal base blend = blend"

definition blendMultiply :: "vec3 \<Rightarrow> vec3 \<Rightarrow> vec3" where
  "blendMultiply base blend = vmul base blend"

definition blendScreen_f :: "real \<Rightarrow> real \<Rightarrow> real" where
  "blendScreen_f base blend = 1 - ((1 - base) * (1 - blend))"

definition blendScreen :: "vec3 \<Rightarrow> vec3 \<Rightarrow> vec3" where
  "blendScreen base blend = vzip blendScreen_f base blend"

definition blendAdd :: "vec3 \<Rightarrow> vec3 \<Rightarrow> vec3" where
  "blendAdd base blend = vmin (vadd base blend) (vsplat 1)"

definition blendSubtract :: "vec3 \<Rightarrow> vec3 \<Rightarrow> vec3" where
  "blendSubtract base blend = vmax (vsub (vadd base blend) (vsplat 1)) (vsplat 0)"

definition blendOverlay_f :: "real \<Rightarrow> real \<Rightarrow> real" where
  "blendOverlay_f base blend =
    (if base < 0.5 then 2 * base * blend else 1 - 2 * (1 - base) * (1 - blend))"

definition blendOverlay :: "vec3 \<Rightarrow> vec3 \<Rightarrow> vec3" where
  "blendOverlay base blend = vzip blendOverlay_f base blend"

definition blendSoftLight_f :: "real \<Rightarrow> real \<Rightarrow> real" where
  "blendSoftLight_f base blend =
    (if blend < 0.5 then 2 * base * blend + base * base * (1 - 2 * blend)
     else sqrt base * (2 * blend - 1) + 2 * base * (1 - blend))"

definition blendSoftLight :: "vec3 \<Rightarrow> vec3 \<Rightarrow> vec3" where
  "blendSoftLight base blend = vzip blendSoftLight_f base blend"

text \<open>\<open>blendHardLight(base, blend) = blendOverlay(blend, base)\<close>.\<close>

definition blendHardLight :: "vec3 \<Rightarrow> vec3 \<Rightarrow> vec3" where
  "blendHardLight base blend = blendOverlay blend base"

definition blendColorDodge_f :: "real \<Rightarrow> real \<Rightarrow> real" where
  "blendColorDodge_f base blend = (if blend = 1 then blend else min (base / (1 - blend)) 1)"

definition blendColorDodge :: "vec3 \<Rightarrow> vec3 \<Rightarrow> vec3" where
  "blendColorDodge base blend = vzip blendColorDodge_f base blend"

definition blendColorBurn_f :: "real \<Rightarrow> real \<Rightarrow> real" where
  "blendColorBurn_f base blend = (if blend = 0 then blend else max (1 - ((1 - base) / blend)) 0)"

definition blendColorBurn :: "vec3 \<Rightarrow> vec3 \<Rightarrow> vec3" where
  "blendColorBurn base blend = vzip blendColorBurn_f base blend"

definition blendDarken_f :: "real \<Rightarrow> real \<Rightarrow> real" where
  "blendDarken_f base blend = min blend base"

definition blendDarken :: "vec3 \<Rightarrow> vec3 \<Rightarrow> vec3" where
  "blendDarken base blend = vzip blendDarken_f base blend"

definition blendLighten_f :: "real \<Rightarrow> real \<Rightarrow> real" where
  "blendLighten_f base blend = max blend base"

definition blendLighten :: "vec3 \<Rightarrow> vec3 \<Rightarrow> vec3" where
  "blendLighten base blend = vzip blendLighten_f base blend"

definition blendDifference :: "vec3 \<Rightarrow> vec3 \<Rightarrow> vec3" where
  "blendDifference base blend = vabs (vsub base blend)"

definition blendExclusion :: "vec3 \<Rightarrow> vec3 \<Rightarrow> vec3" where
  "blendExclusion base blend = vsub (vadd base blend) (vscale (vmul base blend) 2)"

text \<open>\<open>applyBlendMode(mode, base, blend, opacity)\<close>: the chain of \<open>if (mode == k) return\<close>
  statements, with the \<open>blendNormal\<close> fallback last.\<close>

definition applyBlendMode :: "int \<Rightarrow> vec3 \<Rightarrow> vec3 \<Rightarrow> real \<Rightarrow> vec3" where
  "applyBlendMode mode base blend opacity =
    (if mode = 0 then withOpacity (blendNormal base blend) base opacity
     else if mode = 1 then withOpacity (blendMultiply base blend) base opacity
     else if mode = 2 then withOpacity (blendScreen base blend) base opacity
     else if mode = 3 then withOpacity (blendAdd base blend) base opacity
     else if mode = 4 then withOpacity (blendSubtract base blend) base opacity
     else if mode = 5 then withOpacity (blendOverlay base blend) base opacity
     else if mode = 6 then withOpacity (blendSoftLight base blend) base opacity
     else if mode = 7 then withOpacity (blendHardLight base blend) base opacity
     else if mode = 8 then withOpacity (blendColorDodge base blend) base opacity
     else if mode = 9 then withOpacity (blendColorBurn base blend) base opacity
     else if mode = 10 then withOpacity (blendDarken base blend) base opacity
     else if mode = 11 then withOpacity (blendLighten base blend) base opacity
     else if mode = 12 then withOpacity (blendDifference base blend) base opacity
     else if mode = 13 then withOpacity (blendExclusion base blend) base opacity
     else withOpacity (blendNormal base blend) base opacity)"

text \<open>
  \<open>main()\<close> of the fragment program, for one fragment: \<open>layerColor\<close>, \<open>bgColor\<close> and
  \<open>maskColor\<close> are the three texture samples at the fragment's coordinate, the other
  arguments are the uniforms. The result is \<open>gl_FragColor\<close>.
\<close>

definition frag_main :: "int \<Rightarrow> real \<Rightarrow> bool \<Rightarrow> vec4 \<Rightarrow> vec4 \<Rightarrow> vec4 \<Rightarrow> vec4" where
  "frag_main blendMode_u layerOpacity hasMask layerColor bgColor maskColor =
    (let finalOpacity = alpha layerColor * layerOpacity;
         finalOpacity = (if hasMask then finalOpacity * red4 maskColor else finalOpacity)
     in if finalOpacity \<le> 0 then bgColor
        else vec4_of (applyBlendMode blendMode_u (rgb bgColor) (rgb layerColor) finalOpacity) 1)"

subsection \<open>The per-pixel contract in the specification's words\<close>

text \<open>GLSL's \<open>mix(x, y, a) = x * (1 - a) + y * a\<close>.\<close>

definition mix :: "vec3 \<Rightarrow> vec3 \<Rightarrow> real \<Rightarrow> vec3" where
  "mix x y a = vadd (vscale x (1 - a)) (vscale y a)"

text \<open>The effective opacity: \<open>L.alpha * layerOpacity * (mask ? maskRedChannel : 1)\<close>.\<close>

definition alpha_eff :: "vec4 \<Rightarrow> real \<Rightarrow> vec4 option \<Rightarrow> real" where
  "alpha_eff L layerOpacity msk =
    alpha L * layerOpacity * (case msk of Some m \<Rightarrow> red4 m | None \<Rightarrow> 1)"

text \<open>The table of blend functions, per channel, with base \<open>B\<close> and layer \<open>L\<close>.\<close>

definition blendChannel :: "int \<Rightarrow> real \<Rightarrow> real \<Rightarrow> real" where
  "blendChannel opcode B L =
    (if opcode = 0 then L
     else if opcode = 1 then B * L
     else if opcode = 2 then 1 - (1 - B) * (1 - L)
     else if opcode = 3 then min (B + L) 1
     else if opcode = 4 then max (B + L - 1) 0
     else if opcode = 5 then (if B < 0.5 then 2 * B * L else 1 - 2 * (1 - B) * (1 - L))
     else if opcode = 6 then
       (if L < 0.5 then 2 * B * L + B\<^sup>2 * (1 - 2 * L) else sqrt B * (2 * L - 1) + 2 * B * (1 - L))
     else if opcode = 7 then (if L < 0.5 then 2 * L * B else 1 - 2 * (1 - L) * (1 - B))
     else if opcode = 8 then (if L = 1 then L else min (B / (1 - L)) 1)
     else if opcode = 9 then (if L = 0 then L else max (1 - (1 - B) / L) 0)
     else if opcode = 10 then min B L
     else if opcode = 11 then max B L
     else if opcode = 12 then \<bar>B - L\<bar>
     else if opcode = 13 then B + L - 2 * B * L
     else L)"

definition applyBlendFunction :: "int \<Rightarrow> vec3 \<Rightarrow> vec3 \<Rightarrow> vec3" where
  "applyBlendFunction opcode B L = vzip (blendChannel opcode) B L"

text \<open>The contract as the specification words it: below the threshold the base colour
  with its alpha forced to 1, above it the mix with alpha 1.\<close>

definition blendPixel_spec :: "int \<Rightarrow> vec4 \<Rightarrow> vec4 \<Rightarrow> real \<Rightarrow> vec4 option \<Rightarrow> vec4" where
  "blendPixel_spec opcode B L layerOpacity msk =
    (if alpha_eff L layerOpacity msk \<le> 0 then vec4_of (rgb B) 1
     else vec4_of (mix (applyBlendFunction opcode (rgb B) (rgb L)) (rgb B)
                      (1 - alpha_eff L layerOpacity msk)) 1)"

text \<open>The contract with the first branch as the program has it: the base colour as it
  is, its alpha included.\<close>

definition blendPixel :: "int \<Rightarrow> vec4 \<Rightarrow> vec4 \<Rightarrow> real \<Rightarrow> vec4 option \<Rightarrow> vec4" where
  "blendPixel opcode B L layerOpacity msk =
    (if alpha_eff L layerOpacity msk \<le> 0 then B
     else vec4_of (mix (applyBlendFunction opcode (rgb B) (rgb L)) (rgb B)
                      (1 - alpha_eff L layerOpacity msk)) 1)"

section \<open>The render host\<close>

text \<open>
  A texture is what \<open>texture2D\<close> returns at each coordinate. A framebuffer of the host
  carries the options it was created with, its colour texture, and whether it is between
  its \<open>begin()\<close> and \<open>end()\<close>. A framebuffer is created transparent.
\<close>

type_synonym uv = "real \<times> real"

type_synonym image = "uv \<Rightarrow> vec4"

definition transparent :: image where
  "transparent = (\<lambda>uv. Vec4 0 0 0 0)"

record p5_framebuffer =
  fb_width :: real
  fb_height :: real
  fb_density :: real
  fb_depth :: "jsval option"
  fb_antialias :: "jsval option"
  fb_pixels :: image
  fb_drawing :: bool

text \<open>What the main surface received: \<open>p.clear()\<close>, the caller's clear callback, and
  \<open>p.image(buffer, 0, 0)\<close>.\<close>

datatype canvas_op = ClearCanvas | ClearCallback | DrawImage image

text \<open>
  The p5 instance \<open>this.p\<close> shared by every object, with the console beside it. The host
  decides whether \<open>createFramebuffer\<close> and \<open>createShader\<close> return or throw: the two
  lists hold the outcomes of the coming calls (\<open>True\<close> returns, \<open>False\<close> throws), and
  calls beyond the list return.
\<close>

record p5 =
  p_width :: real
  p_height :: real
  p_pixelDensity :: real
  p_renderer :: bool
  p_webgl :: bool
  createFramebuffer_outcomes :: "bool list"
  createShader_outcomes :: "bool list"
  canvas :: "canvas_op list"
  console :: "diag list"

definition emit :: "diag \<Rightarrow> p5 \<Rightarrow> p5" where
  "emit d p = p\<lparr>console := console p @ [d]\<rparr>"

text \<open>\<open>p.createFramebuffer(options)\<close>: \<open>None\<close> stands for a thrown exception.\<close>

definition createFramebuffer ::
  "p5 \<Rightarrow> real \<Rightarrow> real \<Rightarrow> real \<Rightarrow> jsval option \<Rightarrow> jsval option \<Rightarrow> p5_framebuffer option \<times> p5" where
  "createFramebuffer p w h d dep aa =
    (let fb = \<lparr>fb_width = w, fb_height = h, fb_density = d, fb_depth = dep,
               fb_antialias = aa, fb_pixels = transparent, fb_drawing = False\<rparr>
     in case createFramebuffer_outcomes p of
          [] \<Rightarrow> (Some fb, p)
        | ok # rest \<Rightarrow>
            (if ok then Some fb else None, p\<lparr>createFramebuffer_outcomes := rest\<rparr>))"

datatype p5_shader = CompositorShader

definition createShader :: "p5 \<Rightarrow> p5_shader option \<times> p5" where
  "createShader p =
    (case createShader_outcomes p of
       [] \<Rightarrow> (Some CompositorShader, p)
     | ok # rest \<Rightarrow>
         (if ok then Some CompositorShader else None, p\<lparr>createShader_outcomes := rest\<rparr>))"

section \<open>Layer\<close>

text \<open>Template literals print an id in decimal.\<close>

fun decimal :: "nat \<Rightarrow> string" where
  "decimal n =
    (if n < 10 then [''0123456789'' ! n] else decimal (n div 10) @ [''0123456789'' ! (n mod 10)])"

definition String_of :: "int \<Rightarrow> string" where
  "String_of i = (if i < 0 then CHR ''-'' # decimal (nat (- i)) else decimal (nat i))"

text \<open>
  The creation options. \<open>None\<close> is a property that is absent, so that the default
  applies; for the three sizes, which the constructor reads with \<open>??\<close> and \<open>!= null\<close>,
  it is also \<open>null\<close> or \<open>undefined\<close>, and for \<open>zIndex\<close>, which is tested with
  \<open>!== undefined\<close>, it is also \<open>undefined\<close>. A \<open>zIndex\<close> of \<open>null\<close> is not a number
  and is not modelled.
\<close>

record layer_options =
  opt_visible :: "bool option"
  opt_opacity :: "real option"
  opt_blendMode :: "jsval option"
  opt_width :: "real option"
  opt_height :: "real option"
  opt_density :: "real option"
  opt_depth :: "jsval option"
  opt_antialias :: "jsval option"
  opt_zIndex :: "real option"

definition no_options :: layer_options where
  "no_options =
    \<lparr>opt_visible = None, opt_opacity = None, opt_blendMode = None, opt_width = None,
     opt_height = None, opt_density = None, opt_depth = None, opt_antialias = None,
     opt_zIndex = None\<rparr>"

text \<open>
  A \<open>Layer\<close> object. The mask is the texture of the \<open>p5.Framebuffer\<close> or \<open>p5.Image\<close>
  it refers to; \<open>None\<close> is \<open>null\<close>, for the mask and for the framebuffer.
\<close>

record layer =
  lid :: int
  name :: string
  visible :: bool
  opacity :: real
  blendMode :: jsval
  zIndex :: real
  width :: real
  height :: real
  density :: real
  depth :: jsval
  antialias :: jsval
  customSize :: bool
  layer_mask :: "image option"
  hasBeenDrawnTo :: bool
  framebuffer :: "p5_framebuffer option"

text \<open>\<open>_clampOpacity(value) = Math.max(0, Math.min(1, value))\<close>.\<close>

definition clampOpacity :: "real \<Rightarrow> real" where
  "clampOpacity v = max 0 (min 1 v)"

text \<open>
  \<open>Layer._createFramebuffer()\<close>: the host's exception is caught, logged and turned
  into \<open>null\<close>. \<open>depth\<close> and \<open>antialias\<close> are passed on unless \<open>undefined\<close>.
\<close>

definition Layer_createFramebuffer :: "p5 \<Rightarrow> layer \<Rightarrow> p5_framebuffer option \<times> p5" where
  "Layer_createFramebuffer p l =
    (case createFramebuffer p (width l) (height l) (density l)
            (if depth l \<noteq> JUndefined then Some (depth l) else None)
            (if antialias l \<noteq> JUndefined then Some (antialias l) else None) of
       (Some fb, p') \<Rightarrow> (Some fb, p')
     | (None, p') \<Rightarrow> (None, emit (ErrorCreatingFramebuffer (name l)) p'))"

text \<open>
  \<open>new Layer(p5Instance, id, name, options)\<close>. The options are merged over
  \<open>DEFAULT_LAYER_OPTIONS\<close>; the opacity is clamped; the blend mode is stored as it
  comes. The constructor throws when no framebuffer could be created.
\<close>

definition Layer_new :: "p5 \<Rightarrow> int \<Rightarrow> string \<Rightarrow> layer_options \<Rightarrow> (exn + layer) \<times> p5" where
  "Layer_new p i nm opts =
    (let l = \<lparr>lid = i,
              name = (if nm \<noteq> [] then nm else ''Layer '' @ String_of i),
              visible = (case opt_visible opts of None \<Rightarrow> True | Some v \<Rightarrow> v),
              opacity = clampOpacity (case opt_opacity opts of None \<Rightarrow> 1 | Some v \<Rightarrow> v),
              blendMode = (case opt_blendMode opts of None \<Rightarrow> NORMAL | Some m \<Rightarrow> m),
              zIndex = (case opt_zIndex opts of None \<Rightarrow> of_int i | Some z \<Rightarrow> z),
              width = (case opt_width opts of None \<Rightarrow> p_width p | Some w \<Rightarrow> w),
              height = (case opt_height opts of None \<Rightarrow> p_height p | Some h \<Rightarrow> h),
              density = (case opt_density opts of None \<Rightarrow> p_pixelDensity p | Some d \<Rightarrow> d),
              depth = (case opt_depth opts of None \<Rightarrow> JBool False | Some d \<Rightarrow> d),
              antialias = (case opt_antialias opts of None \<Rightarrow> JBool False | Some a \<Rightarrow> a),
              customSize = (opt_width opts \<noteq> None \<or> opt_height opts \<noteq> None \<or>
                            opt_density opts \<noteq> None),
              layer_mask = None,
              hasBeenDrawnTo = False,
              framebuffer = None\<rparr>
     in case Layer_createFramebuffer p l of
          (None, p') \<Rightarrow> (Inl (LibError (''Failed to create framebuffer for layer '' @ name l)), p')
        | (Some fb, p') \<Rightarrow> (Inr (l\<lparr>framebuffer := Some fb\<rparr>), p'))"

definition Layer_show :: "layer \<Rightarrow> layer" where
  "Layer_show l = l\<lparr>visible := True\<rparr>"

definition Layer_hide :: "layer \<Rightarrow> layer" where
  "Layer_hide l = l\<lparr>visible := False\<rparr>"

definition Layer_setOpacity :: "real \<Rightarrow> layer \<Rightarrow> layer" where
  "Layer_setOpacity v l = l\<lparr>opacity := clampOpacity v\<rparr>"

text \<open>\<open>Layer.setBlendMode(mode)\<close>: a value outside \<open>BlendModes\<close> is replaced by
  \<open>NORMAL\<close>, with a warning.\<close>

definition Layer_setBlendMode :: "jsval \<Rightarrow> p5 \<Rightarrow> layer \<Rightarrow> p5 \<times> layer" where
  "Layer_setBlendMode m p l =
    (if \<not> isBlendMode m then (emit (WarnInvalidBlendMode m) p, l\<lparr>blendMode := NORMAL\<rparr>)
     else (p, l\<lparr>blendMode := m\<rparr>))"

definition Layer_setZIndex :: "real \<Rightarrow> layer \<Rightarrow> layer" where
  "Layer_setZIndex z l = l\<lparr>zIndex := z\<rparr>"

text \<open>\<open>Layer.setMask(maskSource)\<close>: \<open>None\<close> is a falsy source.\<close>

definition Layer_setMask :: "image option \<Rightarrow> p5 \<Rightarrow> layer \<Rightarrow> p5 \<times> layer" where
  "Layer_setMask src p l =
    (case src of
       None \<Rightarrow> (emit WarnInvalidMaskSource p, l)
     | Some m \<Rightarrow> (p, l\<lparr>layer_mask := Some m\<rparr>))"

definition Layer_clearMask :: "layer \<Rightarrow> layer" where
  "Layer_clearMask l = l\<lparr>layer_mask := None\<rparr>"

text \<open>
  \<open>Layer.resize(width, height, density)\<close>: the sizes are stored, \<open>customSize\<close> is
  recomputed against the host surface, the old framebuffer is removed and a new one is
  created (\<open>null\<close> when the host throws).
\<close>

definition Layer_resize :: "real \<Rightarrow> real \<Rightarrow> real \<Rightarrow> p5 \<Rightarrow> layer \<Rightarrow> p5 \<times> layer" where
  "Layer_resize w h d p l =
    (let l1 = l\<lparr>width := w, height := h, density := d\<rparr>;
         matchesCanvas = (w = p_width p \<and> h = p_height p \<and> d = p_pixelDensity p);
         l2 = l1\<lparr>customSize := \<not> matchesCanvas\<rparr>
     in case Layer_createFramebuffer p l2 of
          (fb, p') \<Rightarrow> (p', l2\<lparr>framebuffer := fb\<rparr>))"

definition Layer_begin :: "p5 \<Rightarrow> layer \<Rightarrow> p5 \<times> layer" where
  "Layer_begin p l =
    (case framebuffer l of
       None \<Rightarrow> (emit (ErrorCannotBegin (name l)) p, l)
     | Some fb \<Rightarrow> (p, l\<lparr>framebuffer := Some (fb\<lparr>fb_drawing := True\<rparr>)\<rparr>))"

definition Layer_end :: "p5 \<Rightarrow> layer \<Rightarrow> p5 \<times> layer" where
  "Layer_end p l =
    (case framebuffer l of
       None \<Rightarrow> (emit (ErrorCannotEnd (name l)) p, l)
     | Some fb \<Rightarrow>
         (p, l\<lparr>framebuffer := Some (fb\<lparr>fb_drawing := False\<rparr>), hasBeenDrawnTo := True\<rparr>))"

definition Layer_dispose :: "layer \<Rightarrow> layer" where
  "Layer_dispose l = (if framebuffer l \<noteq> None then l\<lparr>framebuffer := None\<rparr> else l)"

section \<open>Compositor\<close>

text \<open>The compositor's fields. The two local variables \<open>currentBuffer\<close> and
  \<open>nextBuffer\<close> of \<open>render\<close> each refer to one of the two buffers.\<close>

record compositor =
  shader :: "p5_shader option"
  shaderLoaded :: bool
  bufferA :: "p5_framebuffer option"
  bufferB :: "p5_framebuffer option"
  bufferDensity :: "real option"

datatype buffer_ref = BufferA | BufferB

definition getBuffer :: "compositor \<Rightarrow> buffer_ref \<Rightarrow> p5_framebuffer option" where
  "getBuffer c b = (case b of BufferA \<Rightarrow> bufferA c | BufferB \<Rightarrow> bufferB c)"

definition setBuffer :: "buffer_ref \<Rightarrow> p5_framebuffer \<Rightarrow> compositor \<Rightarrow> compositor" where
  "setBuffer b fb c = (case b of BufferA \<Rightarrow> c\<lparr>bufferA := Some fb\<rparr> | BufferB \<Rightarrow> c\<lparr>bufferB := Some fb\<rparr>)"

definition Compositor_new :: compositor where
  "Compositor_new =
    \<lparr>shader = None, shaderLoaded = False, bufferA = None, bufferB = None, bufferDensity = None\<rparr>"

text \<open>\<open>_ensureShader()\<close>: the exception of \<open>createShader\<close> is caught and logged; the
  method returns \<open>this.shader\<close>.\<close>

definition Compositor_ensureShader :: "p5 \<Rightarrow> compositor \<Rightarrow> p5_shader option \<times> p5 \<times> compositor" where
  "Compositor_ensureShader p c =
    (if \<not> shaderLoaded c then
       (case createShader p of
          (Some sh, p') \<Rightarrow> (Some sh, p', c\<lparr>shader := Some sh, shaderLoaded := True\<rparr>)
        | (None, p') \<Rightarrow> (shader c, emit ErrorFailedToCreateShader p', c\<lparr>shaderLoaded := False\<rparr>))
     else (shader c, p, c))"

text \<open>
  \<open>_ensureBuffers()\<close>. Nothing is caught here: an exception of \<open>createFramebuffer\<close>
  leaves the method, as does the \<open>TypeError\<close> of \<open>this.bufferB.remove()\<close> when
  \<open>bufferB\<close> is \<open>null\<close>. The fields written before the exception stay written.
\<close>

definition Compositor_ensureBuffers :: "p5 \<Rightarrow> compositor \<Rightarrow> exn option \<times> p5 \<times> compositor" where
  "Compositor_ensureBuffers p c =
    (let currentDensity = p_pixelDensity p;
         needsResize =
           (case bufferA c of
              None \<Rightarrow> True
            | Some a \<Rightarrow> fb_width a \<noteq> p_width p \<or> fb_height a \<noteq> p_height p \<or>
                        bufferDensity c \<noteq> Some currentDensity)
     in if needsResize then
          (if bufferA c \<noteq> None \<and> bufferB c = None then (Some TypeError, p, c)
           else
             (case createFramebuffer p (p_width p) (p_height p) currentDensity
                     (Some (JBool False)) (Some (JBool False)) of
                (None, p1) \<Rightarrow> (Some HostError, p1, c)
              | (Some a, p1) \<Rightarrow>
                  (case createFramebuffer p1 (p_width p) (p_height p) currentDensity
                          (Some (JBool False)) (Some (JBool False)) of
                     (None, p2) \<Rightarrow> (Some HostError, p2, c\<lparr>bufferA := Some a\<rparr>)
                   | (Some b, p2) \<Rightarrow>
                       (None, p2, c\<lparr>bufferA := Some a, bufferB := Some b,
                                     bufferDensity := Some currentDensity\<rparr>))))
        else (None, p, c))"

text \<open>
  The full-surface quad drawn by \<open>_renderLayer\<close>: the blending program runs at every
  coordinate, with the layer's texture, the background's texture, the mask (or the
  layer's own texture when there is none) and the three uniforms.
\<close>

definition shaderPass :: "int \<Rightarrow> real \<Rightarrow> image option \<Rightarrow> image \<Rightarrow> image \<Rightarrow> image" where
  "shaderPass blendMode_u layerOpacity msk layerTexture backgroundTexture =
    (\<lambda>uv. frag_main blendMode_u layerOpacity (msk \<noteq> None) (layerTexture uv)
            (backgroundTexture uv) ((case msk of Some m \<Rightarrow> m | None \<Rightarrow> layerTexture) uv))"

text \<open>
  \<open>_renderLayer(layer, backgroundBuffer)\<close>. The result holds what was drawn into the
  framebuffer that is bound at the call: \<open>None\<close> when the method returned before
  drawing, the quad otherwise.
\<close>

definition Compositor_renderLayer ::
  "p5 \<Rightarrow> compositor \<Rightarrow> layer \<Rightarrow> image \<Rightarrow> image option \<times> p5 \<times> compositor" where
  "Compositor_renderLayer p c l backgroundTexture =
    (if \<not> visible l \<or> opacity l \<le> 0 then (None, p, c)
     else case framebuffer l of
       None \<Rightarrow> (None, emit (WarnLayerHasNoFramebuffer (name l)) p, c)
     | Some fb \<Rightarrow>
         (case Compositor_ensureShader p c of
            (None, p1, c1) \<Rightarrow> (None, emit WarnShaderNotAvailable p1, c1)
          | (Some sh, p1, c1) \<Rightarrow>
              (case getBlendModeIndex (blendMode l) of
                 (idx, ds) \<Rightarrow>
                   (Some (shaderPass idx (opacity l) (layer_mask l) (fb_pixels fb) backgroundTexture),
                    p1\<lparr>console := console p1 @ ds\<rparr>, c1))))"

text \<open>
  The loop of \<open>render\<close> over the sorted layers. \<open>cur\<close> and \<open>nxt\<close> are
  \<open>currentBuffer\<close> and \<open>nextBuffer\<close>. For a layer that passes the gate, \<open>nextBuffer\<close>
  is bound and cleared, \<open>_renderLayer\<close> draws into it (or returns early), and the two
  variables are swapped. \<open>nextBuffer.begin()\<close> on \<open>null\<close> is a \<open>TypeError\<close>.
\<close>

fun Compositor_renderLoop ::
  "p5 \<Rightarrow> compositor \<Rightarrow> buffer_ref \<Rightarrow> buffer_ref \<Rightarrow> layer list \<Rightarrow>
   exn option \<times> p5 \<times> compositor \<times> buffer_ref" where
  "Compositor_renderLoop p c cur nxt [] = (None, p, c, cur)"
| "Compositor_renderLoop p c cur nxt (l # ls) =
    (if \<not> visible l \<or> opacity l \<le> 0 then Compositor_renderLoop p c cur nxt ls
     else case getBuffer c nxt of
       None \<Rightarrow> (Some TypeError, p, c, cur)
     | Some nb \<Rightarrow>
         (let background = (case getBuffer c cur of Some cb \<Rightarrow> fb_pixels cb | None \<Rightarrow> transparent)
          in case Compositor_renderLayer p c l background of
               (drawn, p1, c1) \<Rightarrow>
                 Compositor_renderLoop p1
                   (setBuffer nxt (nb\<lparr>fb_pixels := (case drawn of Some img \<Rightarrow> img | None \<Rightarrow> transparent)\<rparr>) c1)
                   nxt cur ls))"

text \<open>
  \<open>Compositor.render(layers, clearCallback)\<close>. The layers are sorted by \<open>zIndex\<close>
  with the stable \<open>Array.prototype.sort\<close>; buffer A is cleared; the loop runs; the main
  surface is cleared (by the callback when there is one) and receives the current
  buffer. An exception ends the call where it is thrown.
\<close>

definition Compositor_render ::
  "p5 \<Rightarrow> compositor \<Rightarrow> layer list \<Rightarrow> bool \<Rightarrow> exn option \<times> p5 \<times> compositor" where
  "Compositor_render p c ls clearCallback =
    (case Compositor_ensureBuffers p c of
       (Some e, p1, c1) \<Rightarrow> (Some e, p1, c1)
     | (None, p1, c1) \<Rightarrow>
         (case getBuffer c1 BufferA of
            None \<Rightarrow> (Some TypeError, p1, c1)
          | Some a \<Rightarrow>
              (case Compositor_renderLoop p1 (setBuffer BufferA (a\<lparr>fb_pixels := transparent\<rparr>) c1)
                      BufferA BufferB (sort_key zIndex ls) of
                 (Some e, p2, c2, cur) \<Rightarrow> (Some e, p2, c2)
               | (None, p2, c2, cur) \<Rightarrow>
                   (case getBuffer c2 cur of
                      None \<Rightarrow> (Some TypeError, p2, c2)
                    | Some fb \<Rightarrow>
                        (None,
                         p2\<lparr>canvas := canvas p2 @
                              [if clearCallback then ClearCallback else ClearCanvas,
                               DrawImage (fb_pixels fb)]\<rparr>,
                         c2)))))"

definition Compositor_dispose :: "compositor \<Rightarrow> compositor" where
  "Compositor_dispose c =
    (let c1 = (if bufferA c \<noteq> None then c\<lparr>bufferA := None\<rparr> else c);
         c2 = (if bufferB c1 \<noteq> None then c1\<lparr>bufferB := None\<rparr> else c1)
     in c2\<lparr>bufferDensity := None, shader := None, shaderLoaded := False\<rparr>)"

subsection \<open>The composite in the specification's words\<close>

text \<open>The gate of a layer: visible, with an opacity above 0.\<close>

definition passesGate :: "layer \<Rightarrow> bool" where
  "passesGate l = (visible l \<and> opacity l > 0)"

text \<open>The texture of a layer; a layer without a framebuffer has no pixels.\<close>

definition layerTexture :: "layer \<Rightarrow> image" where
  "layerTexture l = (case framebuffer l of Some fb \<Rightarrow> fb_pixels fb | None \<Rightarrow> transparent)"

text \<open>One blend pass of a layer over an accumulator: the blending program at every
  coordinate, with the layer's opacity, its mask and the opcode of its blend mode.\<close>

definition blendPass :: "image \<Rightarrow> layer \<Rightarrow> image" where
  "blendPass acc l =
    shaderPass (fst (getBlendModeIndex (blendMode l))) (opacity l) (layer_mask l)
      (layerTexture l) acc"

text \<open>The left fold over the layers sorted by \<open>zIndex\<close>, from the cleared
  accumulator, of the blend passes of the layers that pass the gate.\<close>

definition composite :: "layer list \<Rightarrow> image" where
  "composite ls = foldl blendPass transparent (filter passesGate (sort_key zIndex ls))"




section \<open>LayerSystem\<close>

text \<open>The calls the attached \<open>LayerUI\<close> has received; the panel itself is outside the
  compositing core.\<close>

datatype ui_call = UiUpdate | UiSyncState | UiScheduleThumbnailUpdate int

text \<open>
  The fields of a \<open>LayerSystem\<close>. \<open>layers\<close> is a JavaScript \<open>Map\<close>, which iterates
  in insertion order: an association list, read with \<open>map_of\<close>, written with
  \<open>AList.update\<close> (in place for a key that is there, at the end otherwise) and
  \<open>AList.delete\<close>. \<open>layerNames\<close> is only ever read by key.
\<close>

record layer_system =
  layers :: "(int \<times> layer) list"
  layerNames :: "string \<rightharpoonup> int"
  layerIdCounter :: int
  activeLayerId :: "int option"
  compositor :: compositor
  ui :: "ui_call list option"
  autoResize :: bool
  lastCanvasWidth :: real
  lastCanvasHeight :: real
  lastPixelDensity :: real

text \<open>\<open>new LayerSystem(p5Instance)\<close> throws without a WebGL drawing context.\<close>

definition LayerSystem_fields :: "p5 \<Rightarrow> layer_system" where
  "LayerSystem_fields p =
    \<lparr>layers = [], layerNames = Map.empty, layerIdCounter = 0, activeLayerId = None,
     compositor = Compositor_new, ui = None, autoResize = True,
     lastCanvasWidth = p_width p, lastCanvasHeight = p_height p,
     lastPixelDensity = p_pixelDensity p\<rparr>"

definition LayerSystem_new :: "p5 \<Rightarrow> exn + layer_system" where
  "LayerSystem_new p =
    (if \<not> p_renderer p then
       Inl (LibError
         ''Canvas not initialized. Make sure createCanvas() is called before createLayerSystem()'')
     else if \<not> p_webgl p then
       Inl (LibError ''LayerSystem requires WebGL mode. Use createCanvas(w, h, WEBGL)'')
     else Inr (LayerSystem_fields p))"

text \<open>
  \<open>_getLayerById(layerIdOrName)\<close>: a number is looked up in \<open>layers\<close>, a string in
  \<open>layerNames\<close> and then in \<open>layers\<close>; anything else finds nothing. \<open>findLayer\<close>
  also gives the key under which the \<open>Layer\<close> object was found, which is where a
  method called on that object takes effect.
\<close>

definition findLayer :: "layer_system \<Rightarrow> jsval \<Rightarrow> (int \<times> layer) option" where
  "findLayer s r =
    (case r of
       JNum i \<Rightarrow> map_option (Pair i) (map_of (layers s) i)
     | JStr n \<Rightarrow>
         (case layerNames s n of
            Some i \<Rightarrow> map_option (Pair i) (map_of (layers s) i)
          | None \<Rightarrow> None)
     | _ \<Rightarrow> None)"

definition getLayerById :: "layer_system \<Rightarrow> jsval \<Rightarrow> layer option" where
  "getLayerById s r = map_option snd (findLayer s r)"

text \<open>A method that mutates the \<open>Layer\<close> object stored under key \<open>k\<close>.\<close>

definition modifyLayer :: "int \<Rightarrow> (layer \<Rightarrow> layer) \<Rightarrow> layer_system \<Rightarrow> layer_system" where
  "modifyLayer k f s = s\<lparr>layers := map (\<lambda>(k', l). if k' = k then (k', f l) else (k', l)) (layers s)\<rparr>"

text \<open>
  \<open>createLayer(name, options)\<close>. The counter is advanced before the \<open>Layer\<close>
  constructor runs, so it stays advanced when the constructor throws.
\<close>

definition LayerSystem_createLayer ::
  "string \<Rightarrow> layer_options \<Rightarrow> p5 \<times> layer_system \<Rightarrow> (exn + layer) \<times> p5 \<times> layer_system" where
  "LayerSystem_createLayer nm opts w =
    (case w of (p, s) \<Rightarrow>
      (let i = layerIdCounter s;
           s1 = s\<lparr>layerIdCounter := i + 1\<rparr>;
           layerName = (if nm \<noteq> [] then nm else ''Layer '' @ String_of i)
       in case Layer_new p i layerName
                 (opts\<lparr>opt_zIndex := (case opt_zIndex opts of Some z \<Rightarrow> Some z | None \<Rightarrow> Some (of_int i))\<rparr>) of
            (Inl e, p') \<Rightarrow> (Inl e, p', s1)
          | (Inr l, p') \<Rightarrow>
              (Inr l, p',
               s1\<lparr>layers := AList.update i l (layers s1),
                   layerNames := (if layerName \<noteq> [] then (layerNames s1)(layerName \<mapsto> i)
                                  else layerNames s1)\<rparr>)))"

definition LayerSystem_getLayer :: "jsval \<Rightarrow> layer_system \<Rightarrow> layer option" where
  "LayerSystem_getLayer r s = getLayerById s r"

text \<open>\<open>getLayers()\<close>: the values of the map, sorted by \<open>zIndex\<close> (stable).\<close>

definition LayerSystem_getLayers :: "layer_system \<Rightarrow> layer list" where
  "LayerSystem_getLayers s = sort_key zIndex (map snd (layers s))"

text \<open>\<open>end()\<close>: warns when no layer is active; otherwise ends the active layer if the
  map has it, tells the panel, and clears \<open>activeLayerId\<close>.\<close>

definition LayerSystem_end :: "p5 \<times> layer_system \<Rightarrow> p5 \<times> layer_system" where
  "LayerSystem_end w =
    (case w of (p, s) \<Rightarrow>
      (case activeLayerId s of
         None \<Rightarrow> (emit WarnNoActiveLayer p, s)
       | Some a \<Rightarrow>
           (case map_of (layers s) a of
              None \<Rightarrow> (p, s\<lparr>activeLayerId := None\<rparr>)
            | Some l \<Rightarrow>
                (case Layer_end p l of
                   (p', l') \<Rightarrow>
                     (p', (modifyLayer a (\<lambda>_. l') s)
                            \<lparr>ui := map_option (\<lambda>calls. calls @ [UiScheduleThumbnailUpdate (lid l')]) (ui s),
                             activeLayerId := None\<rparr>)))))"

text \<open>
  \<open>begin(layerIdOrName)\<close>: an active layer is ended first, with a warning; then the
  reference is resolved; a missing layer is an error message and a return.
\<close>

definition LayerSystem_begin :: "jsval \<Rightarrow> p5 \<times> layer_system \<Rightarrow> p5 \<times> layer_system" where
  "LayerSystem_begin r w =
    (case w of (p, s) \<Rightarrow>
      (case (case activeLayerId s of
               Some a \<Rightarrow> LayerSystem_end (emit (WarnAlreadyActive a) p, s)
             | None \<Rightarrow> (p, s)) of
         (p1, s1) \<Rightarrow>
           (case findLayer s1 r of
              None \<Rightarrow> (emit (ErrorLayerNotFound r) p1, s1)
            | Some (k, l) \<Rightarrow>
                (case Layer_begin p1 l of
                   (p2, l') \<Rightarrow> (p2, (modifyLayer k (\<lambda>_. l') s1)\<lparr>activeLayerId := Some (lid l')\<rparr>)))))"

text \<open>
  \<open>removeLayer(layerIdOrName)\<close>: ends the layer when it is the active one, deletes the
  entry of the layer's name from \<open>layerNames\<close>, disposes the layer and deletes it from
  \<open>layers\<close>.
\<close>

definition LayerSystem_removeLayer :: "jsval \<Rightarrow> p5 \<times> layer_system \<Rightarrow> p5 \<times> layer_system" where
  "LayerSystem_removeLayer r w =
    (case w of (p, s) \<Rightarrow>
      (case findLayer s r of
         None \<Rightarrow> (emit (WarnLayerNotFound r) p, s)
       | Some (k, l) \<Rightarrow>
           (case (if activeLayerId s = Some (lid l) then LayerSystem_end (p, s) else (p, s)) of
              (p1, s1) \<Rightarrow>
                (let s2 = (if name l \<noteq> [] then s1\<lparr>layerNames := (layerNames s1)(name l := None)\<rparr> else s1);
                     s3 = modifyLayer k Layer_dispose s2
                 in (p1, s3\<lparr>layers := AList.delete (lid l) (layers s3)\<rparr>)))))"

text \<open>The resolve-then-delegate methods: a warning and \<open>null\<close> when the layer is not
  found, the layer's own method otherwise.\<close>

definition withLayer ::
  "jsval \<Rightarrow> (p5 \<Rightarrow> layer \<Rightarrow> p5 \<times> layer) \<Rightarrow> p5 \<times> layer_system \<Rightarrow> p5 \<times> layer_system" where
  "withLayer r m w =
    (case w of (p, s) \<Rightarrow>
      (case findLayer s r of
         None \<Rightarrow> (emit (WarnLayerNotFound r) p, s)
       | Some (k, l) \<Rightarrow> (case m p l of (p', l') \<Rightarrow> (p', modifyLayer k (\<lambda>_. l') s))))"

definition LayerSystem_show :: "jsval \<Rightarrow> p5 \<times> layer_system \<Rightarrow> p5 \<times> layer_system" where
  "LayerSystem_show r = withLayer r (\<lambda>p l. (p, Layer_show l))"

definition LayerSystem_hide :: "jsval \<Rightarrow> p5 \<times> layer_system \<Rightarrow> p5 \<times> layer_system" where
  "LayerSystem_hide r = withLayer r (\<lambda>p l. (p, Layer_hide l))"

definition LayerSystem_setOpacity :: "jsval \<Rightarrow> real \<Rightarrow> p5 \<times> layer_system \<Rightarrow> p5 \<times> layer_system" where
  "LayerSystem_setOpacity r v = withLayer r (\<lambda>p l. (p, Layer_setOpacity v l))"

definition LayerSystem_setBlendMode :: "jsval \<Rightarrow> jsval \<Rightarrow> p5 \<times> layer_system \<Rightarrow> p5 \<times> layer_system" where
  "LayerSystem_setBlendMode r m = withLayer r (Layer_setBlendMode m)"

definition LayerSystem_setLayerIndex :: "jsval \<Rightarrow> real \<Rightarrow> p5 \<times> layer_system \<Rightarrow> p5 \<times> layer_system" where
  "LayerSystem_setLayerIndex r z = withLayer r (\<lambda>p l. (p, Layer_setZIndex z l))"

definition LayerSystem_moveLayer :: "jsval \<Rightarrow> real \<Rightarrow> p5 \<times> layer_system \<Rightarrow> p5 \<times> layer_system" where
  "LayerSystem_moveLayer r delta = withLayer r (\<lambda>p l. (p, Layer_setZIndex (zIndex l + delta) l))"

definition LayerSystem_setMask :: "jsval \<Rightarrow> image option \<Rightarrow> p5 \<times> layer_system \<Rightarrow> p5 \<times> layer_system" where
  "LayerSystem_setMask r src = withLayer r (Layer_setMask src)"

definition LayerSystem_clearMask :: "jsval \<Rightarrow> p5 \<times> layer_system \<Rightarrow> p5 \<times> layer_system" where
  "LayerSystem_clearMask r = withLayer r (\<lambda>p l. (p, Layer_clearMask l))"

text \<open>\<open>reorderLayers(orderedLayers)\<close>: the layer at position \<open>index\<close> gets
  \<open>zIndex = index\<close>. The argument is given by the keys of its \<open>Layer\<close> objects.\<close>

fun reorderFrom :: "nat \<Rightarrow> int list \<Rightarrow> layer_system \<Rightarrow> layer_system" where
  "reorderFrom index [] s = s"
| "reorderFrom index (k # ks) s = reorderFrom (Suc index) ks (modifyLayer k (Layer_setZIndex (of_nat index)) s)"

definition LayerSystem_reorderLayers :: "int list \<Rightarrow> layer_system \<Rightarrow> layer_system" where
  "LayerSystem_reorderLayers orderedLayers s = reorderFrom 0 orderedLayers s"

text \<open>The loop of \<open>_checkResize\<close> over \<open>this.layers.values()\<close>.\<close>

fun resizeLayers :: "real \<Rightarrow> real \<Rightarrow> real \<Rightarrow> p5 \<Rightarrow> (int \<times> layer) list \<Rightarrow> p5 \<times> (int \<times> layer) list" where
  "resizeLayers w h d p [] = (p, [])"
| "resizeLayers w h d p ((k, l) # rest) =
    (case (if \<not> customSize l then Layer_resize w h d p l else (p, l)) of
       (p1, l') \<Rightarrow> (case resizeLayers w h d p1 rest of (p2, rest') \<Rightarrow> (p2, (k, l') # rest')))"

definition LayerSystem_checkResize :: "p5 \<times> layer_system \<Rightarrow> p5 \<times> layer_system" where
  "LayerSystem_checkResize w =
    (case w of (p, s) \<Rightarrow>
      (let currentWidth = p_width p;
           currentHeight = p_height p;
           currentDensity = p_pixelDensity p;
           sizeChanged = (currentWidth \<noteq> lastCanvasWidth s \<or> currentHeight \<noteq> lastCanvasHeight s);
           densityChanged = (currentDensity \<noteq> lastPixelDensity s)
       in if \<not> sizeChanged \<and> \<not> densityChanged then (p, s)
          else
            (case resizeLayers currentWidth currentHeight currentDensity p (layers s) of
               (p', ls') \<Rightarrow>
                 (p', s\<lparr>lastCanvasWidth := currentWidth, lastCanvasHeight := currentHeight,
                         lastPixelDensity := currentDensity, layers := ls'\<rparr>))))"

text \<open>
  \<open>render(clearCallback)\<close>. What was written before an exception of the compositor
  stays written; the panel is synchronised only when the compositor returns.
\<close>

definition LayerSystem_render :: "bool \<Rightarrow> p5 \<times> layer_system \<Rightarrow> exn option \<times> p5 \<times> layer_system" where
  "LayerSystem_render clearCallback w =
    (case w of (p, s) \<Rightarrow>
      (case (if autoResize s then LayerSystem_checkResize (p, s) else (p, s)) of
         (p1, s1) \<Rightarrow>
           (case Compositor_render p1 (compositor s1) (LayerSystem_getLayers s1) clearCallback of
              (Some e, p2, c2) \<Rightarrow> (Some e, p2, s1\<lparr>compositor := c2\<rparr>)
            | (None, p2, c2) \<Rightarrow>
                (None, p2, s1\<lparr>compositor := c2,
                               ui := map_option (\<lambda>calls. calls @ [UiSyncState]) (ui s1)\<rparr>))))"

definition LayerSystem_setAutoResize :: "bool \<Rightarrow> layer_system \<Rightarrow> layer_system" where
  "LayerSystem_setAutoResize enabled s = s\<lparr>autoResize := enabled\<rparr>"

definition LayerSystem_createUI :: "layer_system \<Rightarrow> layer_system" where
  "LayerSystem_createUI s = s\<lparr>ui := Some [UiUpdate]\<rparr>"

definition LayerSystem_updateUI :: "layer_system \<Rightarrow> layer_system" where
  "LayerSystem_updateUI s = s\<lparr>ui := map_option (\<lambda>calls. calls @ [UiUpdate]) (ui s)\<rparr>"

text \<open>\<open>dispose()\<close>: ends the active layer, disposes the panel and every layer, clears
  \<open>layers\<close> and disposes the compositor. \<open>layerNames\<close> and the counter are kept.\<close>

definition LayerSystem_dispose :: "p5 \<times> layer_system \<Rightarrow> p5 \<times> layer_system" where
  "LayerSystem_dispose w =
    (case w of (p, s) \<Rightarrow>
      (case (if activeLayerId s \<noteq> None then LayerSystem_end (p, s) else (p, s)) of
         (p1, s1) \<Rightarrow>
           (let s2 = (if ui s1 \<noteq> None then s1\<lparr>ui := None\<rparr> else s1);
                s3 = s2\<lparr>layers := map (\<lambda>(k, l). (k, Layer_dispose l)) (layers s2)\<rparr>
            in (p1, s3\<lparr>layers := [], compositor := Compositor_dispose (compositor s3)\<rparr>))))"

subsection \<open>Reachable states\<close>

text \<open>
  The calls a sketch makes on a \<open>LayerSystem\<close>, the drawing it does between
  \<open>begin\<close> and \<open>end\<close> (which replaces the texture of the bound framebuffer), and what
  the host does between calls (any change of the p5 instance and the console).
\<close>

datatype call =
    CreateLayer string layer_options
  | RemoveLayer jsval
  | Begin jsval
  | End
  | Show jsval
  | Hide jsval
  | SetOpacity jsval real
  | SetBlendMode jsval jsval
  | SetLayerIndex jsval real
  | MoveLayer jsval real
  | ReorderLayers "int list"
  | SetMask jsval "image option"
  | ClearMask jsval
  | Render bool
  | SetAutoResize bool
  | CreateUI
  | UpdateUI
  | Dispose
  | Draw image
  | Host p5

definition drawInto :: "image \<Rightarrow> layer \<Rightarrow> layer" where
  "drawInto img l =
    (case framebuffer l of
       None \<Rightarrow> l
     | Some fb \<Rightarrow> (if fb_drawing fb then l\<lparr>framebuffer := Some (fb\<lparr>fb_pixels := img\<rparr>)\<rparr> else l))"

definition drawActive :: "image \<Rightarrow> layer_system \<Rightarrow> layer_system" where
  "drawActive img s =
    (case activeLayerId s of None \<Rightarrow> s | Some a \<Rightarrow> modifyLayer a (drawInto img) s)"

fun perform :: "call \<Rightarrow> p5 \<times> layer_system \<Rightarrow> p5 \<times> layer_system" where
  "perform (CreateLayer nm opts) w = snd (LayerSystem_createLayer nm opts w)"
| "perform (RemoveLayer r) w = LayerSystem_removeLayer r w"
| "perform (Begin r) w = LayerSystem_begin r w"
| "perform End w = LayerSystem_end w"
| "perform (Show r) w = LayerSystem_show r w"
| "perform (Hide r) w = LayerSystem_hide r w"
| "perform (SetOpacity r v) w = LayerSystem_setOpacity r v w"
| "perform (SetBlendMode r m) w = LayerSystem_setBlendMode r m w"
| "perform (SetLayerIndex r z) w = LayerSystem_setLayerIndex r z w"
| "perform (MoveLayer r d) w = LayerSystem_moveLayer r d w"
| "perform (ReorderLayers ks) w = (fst w, LayerSystem_reorderLayers ks (snd w))"
| "perform (SetMask r src) w = LayerSystem_setMask r src w"
| "perform (ClearMask r) w = LayerSystem_clearMask r w"
| "perform (Render cb) w = snd (LayerSystem_render cb w)"
| "perform (SetAutoResize b) w = (fst w, LayerSystem_setAutoResize b (snd w))"
| "perform CreateUI w = (fst w, LayerSystem_createUI (snd w))"
| "perform UpdateUI w = (fst w, LayerSystem_updateUI (snd w))"
| "perform Dispose w = LayerSystem_dispose w"
| "perform (Draw img) w = (fst w, drawActive img (snd w))"
| "perform (Host p) w = (p, snd w)"

inductive reachable :: "p5 \<times> layer_system \<Rightarrow> bool" where
  reachable_new: "LayerSystem_new p = Inr s \<Longrightarrow> reachable (p, s)"
| reachable_call: "reachable w \<Longrightarrow> reachable (perform c w)"

text \<open>
  A layer is being drawn to when its framebuffer is between \<open>begin()\<close> and
  \<open>end()\<close>. \<open>activeLayers\<close> lists the keys of these layers.
\<close>

definition isDrawing :: "layer \<Rightarrow> bool" where
  "isDrawing l = (case framebuffer l of Some fb \<Rightarrow> fb_drawing fb | None \<Rightarrow> False)"

definition activeLayers :: "layer_system \<Rightarrow> int list" where
  "activeLayers s = map fst (filter (\<lambda>(k, l). isDrawing l) (layers s))"

text \<open>
  What every reachable state satisfies: the keys of \<open>layers\<close> are distinct, each
  layer is stored under its own id and has a name, a layer that is being drawn to is the
  one \<open>activeLayerId\<close> records, and \<open>activeLayerId\<close> is a key of \<open>layers\<close>.
\<close>

definition wellFormed :: "layer_system \<Rightarrow> bool" where
  "wellFormed s =
    (distinct (map fst (layers s)) \<and>
     (\<forall>(k, l) \<in> set (layers s). lid l = k \<and> name l \<noteq> []) \<and>
     (\<forall>(k, l) \<in> set (layers s). isDrawing l \<longrightarrow> activeLayerId s = Some k) \<and>
     (\<forall>a. activeLayerId s = Some a \<longrightarrow> a \<in> fst ` set (layers s)))"

text \<open>\<open>begin(A)\<close> followed by \<open>begin(B)\<close>, with no \<open>end()\<close> between them.\<close>

definition beginTwice :: "jsval \<Rightarrow> jsval \<Rightarrow> p5 \<times> layer_system \<Rightarrow> p5 \<times> layer_system" where
  "beginTwice ra rb w = LayerSystem_begin rb (LayerSystem_begin ra w)"

text \<open>
  Whether the host's \<open>i\<close>-th coming call of \<open>createFramebuffer\<close> (counted from 0)
  returns a framebuffer, rather than throwing.
\<close>

definition callReturns :: "bool list \<Rightarrow> nat \<Rightarrow> bool" where
  "callReturns outcomes i = (if i < length outcomes then outcomes ! i else True)"

text \<open>The number of layers that follow the canvas (\<open>customSize = false\<close>) among the
  first \<open>j\<close> layers of the map.\<close>

definition syncedBefore :: "nat \<Rightarrow> (int \<times> layer) list \<Rightarrow> nat" where
  "syncedBefore j ls = length (filter (\<lambda>(k, l). \<not> customSize l) (take j ls))"

text \<open>
  Layer \<open>l'\<close> is layer \<open>l\<close> resized to the given size and density: the three sizes are
  stored, the layer counts as following the canvas, and its other attributes are as
  before. When the host's \<open>createFramebuffer\<close> returned, the layer has a new framebuffer
  of that size and density, transparent and not bound; when it threw, the layer has
  none.
\<close>

definition resizedTo :: "real \<Rightarrow> real \<Rightarrow> real \<Rightarrow> bool \<Rightarrow> layer \<Rightarrow> layer \<Rightarrow> bool" where
  "resizedTo w h d returned l l' =
    (l' = l\<lparr>width := w, height := h, density := d, customSize := False,
             framebuffer := framebuffer l'\<rparr> \<and>
     (if returned then
        (case framebuffer l' of
           None \<Rightarrow> False
         | Some fb \<Rightarrow> fb_width fb = w \<and> fb_height fb = h \<and> fb_density fb = d \<and>
                      fb_pixels fb = transparent \<and> \<not> fb_drawing fb)
      else framebuffer l' = None))"

section \<open>Example hosts and sketches\<close>

text \<open>An 800 by 600 WebGL canvas at density 1 whose calls all return, and the
  \<open>LayerSystem\<close> created on it.\<close>

definition host0 :: p5 where
  "host0 =
    \<lparr>p_width = 800, p_height = 600, p_pixelDensity = 1, p_renderer = True, p_webgl = True,
     createFramebuffer_outcomes = [], createShader_outcomes = [], canvas = [], console = []\<rparr>"

definition world0 :: "p5 \<times> layer_system" where
  "world0 = (host0, LayerSystem_fields host0)"

definition red_image :: image where
  "red_image = (\<lambda>uv. Vec4 1 0 0 1)"

text \<open>Two layers \<open>A\<close> and \<open>B\<close> on the fresh system; two layers created with the
  same name.\<close>

definition twoLayers :: "p5 \<times> layer_system" where
  "twoLayers =
    perform (CreateLayer ''B'' no_options) (perform (CreateLayer ''A'' no_options) world0)"

definition sameName :: "p5 \<times> layer_system" where
  "sameName =
    perform (CreateLayer ''x'' no_options) (perform (CreateLayer ''x'' no_options) world0)"

text \<open>The canvas shrinks to width 400 while the host cannot allocate the next two
  framebuffers; the next \<open>render()\<close> resizes both layers and leaves them without one.\<close>

definition lostBuffers :: "p5 \<times> layer_system" where
  "lostBuffers =
    perform (Render False)
      (perform (Host ((fst twoLayers)\<lparr>p_width := 400, createFramebuffer_outcomes := [False, False]\<rparr>))
        twoLayers)"

text \<open>
  Layer \<open>A\<close> is created with an explicit width and filled with red, layer \<open>B\<close> follows
  the canvas. Then the canvas shrinks while the host cannot allocate the next
  framebuffer (\<open>shrunk\<close>), or it changes size and density with enough memory
  (\<open>resized\<close>).
\<close>

definition paintedA :: "p5 \<times> layer_system" where
  "paintedA =
    perform End (perform (Draw red_image) (perform (Begin (JStr ''A''))
      (perform (CreateLayer ''B'' no_options)
        (perform (CreateLayer ''A'' (no_options\<lparr>opt_width := Some 800\<rparr>)) world0))))"

definition shrunk :: "p5 \<times> layer_system" where
  "shrunk =
    perform (Host ((fst paintedA)\<lparr>p_width := 400, createFramebuffer_outcomes := [False]\<rparr>)) paintedA"

definition resized :: "p5 \<times> layer_system" where
  "resized =
    perform (Host ((fst paintedA)\<lparr>p_width := 400, p_height := 300, p_pixelDensity := 2\<rparr>)) paintedA"

text \<open>The host cannot allocate the next framebuffer when the first frame is rendered.\<close>

definition noMemory :: "p5 \<times> layer_system" where
  "noMemory =
    perform (Host ((fst twoLayers)\<lparr>createFramebuffer_outcomes := [False]\<rparr>)) twoLayers"

text \<open>Layer \<open>A\<close> of \<open>twoLayers\<close> is being drawn to.\<close>

definition drawingA :: "p5 \<times> layer_system" where
  "drawingA = perform (Begin (JStr ''A'')) twoLayers"


text \<open>
  The end-to-end scenario: three layers with \<open>zIndex\<close> 0, 1, 2, opacities 1, 0.5, 1 and
  blend modes \<open>NORMAL\<close>, \<open>MULTIPLY\<close>, \<open>SCREEN\<close>, filled with red, white and blue.
\<close>

definition white_image :: image where
  "white_image = (\<lambda>uv. Vec4 1 1 1 1)"

definition blue_image :: image where
  "blue_image = (\<lambda>uv. Vec4 0 0 1 1)"

definition scenario :: "p5 \<times> layer_system" where
  "scenario =
    perform End (perform (Draw blue_image) (perform (Begin (JStr ''blue''))
    (perform End (perform (Draw white_image) (perform (Begin (JStr ''white''))
    (perform End (perform (Draw red_image) (perform (Begin (JStr ''red''))
    (perform (CreateLayer ''blue'' (no_options\<lparr>opt_blendMode := Some (JStr ''SCREEN'')\<rparr>))
    (perform (CreateLayer ''white''
               (no_options\<lparr>opt_opacity := Some 0.5, opt_blendMode := Some (JStr ''MULTIPLY'')\<rparr>))
    (perform (CreateLayer ''red'' no_options) world0)))))))))))"

section \<open>Properties of the blend mode table\<close>

lemma getBlendModeIndex_declared:
  "\<forall>i < length BlendModes. getBlendModeIndex (JStr (BlendModes ! i)) = (int i, [])"
  by (simp add: BlendModes_def getBlendModeIndex_def All_less_Suc2 del: upt_Suc)

lemma getBlendModeIndex_inj:
  "inj_on (\<lambda>s. fst (getBlendModeIndex (JStr s))) (set BlendModes)"
  by (simp add: BlendModes_def getBlendModeIndex_def)

lemma getBlendModeIndex_range:
  "(\<lambda>s. fst (getBlendModeIndex (JStr s))) ` set BlendModes = {0..13}"
  apply (auto simp add: BlendModes_def getBlendModeIndex_def)
  apply arith
  done

lemma getBlendModeIndex_unknown:
  "\<not> isBlendMode m \<Longrightarrow> getBlendModeIndex m = (0, [WarnUnknownBlendMode m])"
  by (auto simp add: BlendModes_def getBlendModeIndex_def isBlendMode_def split: jsval.splits)

text \<open>
  C8. \<open>getBlendModeIndex\<close> sends the fourteen declared entries of \<open>BlendModes\<close> to
  0, ..., 13 in declaration order, without a diagnostic; on the declared entries it is
  injective and its image is exactly the integers 0 to 13; every value that is not a
  declared entry gets 0 and one warning, and the call returns.
\<close>

theorem getBlendModeIndex_bijective:
  "length BlendModes = 14 \<and>
   (\<forall>i < length BlendModes. getBlendModeIndex (JStr (BlendModes ! i)) = (int i, [])) \<and>
   inj_on (\<lambda>s. fst (getBlendModeIndex (JStr s))) (set BlendModes) \<and>
   (\<lambda>s. fst (getBlendModeIndex (JStr s))) ` set BlendModes = {0..13} \<and>
   (\<forall>m. \<not> isBlendMode m \<longrightarrow> getBlendModeIndex m = (0, [WarnUnknownBlendMode m]))"
  using getBlendModeIndex_declared getBlendModeIndex_inj getBlendModeIndex_range
    getBlendModeIndex_unknown
  by (simp add: BlendModes_def)

theorem getBlendModeIndex_bijective_witness:
  "getBlendModeIndex (JStr ''EXCLUSION'') = (13, []) \<and>
   getBlendModeIndex (JStr ''exclusion'') = (0, [WarnUnknownBlendMode (JStr ''exclusion'')]) \<and>
   getBlendModeIndex (JNum 3) = (0, [WarnUnknownBlendMode (JNum 3)])"
proof -
  have declared: "getBlendModeIndex (JStr (BlendModes ! 13)) = (int 13, [])"
    using getBlendModeIndex_bijective by simp
  have "\<not> isBlendMode (JStr ''exclusion'')" "\<not> isBlendMode (JNum 3)"
    by (simp_all add: isBlendMode_def BlendModes_def)
  then have unknown:
    "getBlendModeIndex (JStr ''exclusion'') = (0, [WarnUnknownBlendMode (JStr ''exclusion'')])"
    "getBlendModeIndex (JNum 3) = (0, [WarnUnknownBlendMode (JNum 3)])"
    using getBlendModeIndex_bijective by blast+
  from declared unknown show ?thesis
    by (simp add: BlendModes_def)
qed

section \<open>Properties of the blending program\<close>

lemma withOpacity_mix: "withOpacity blended base a = mix blended base (1 - a)"
  by (simp add: withOpacity_def mix_def)

lemma applyBlendMode_table:
  "applyBlendMode opcode B L a = mix (applyBlendFunction opcode B L) B (1 - a)"
  unfolding applyBlendMode_def withOpacity_mix applyBlendFunction_def blendChannel_def
  by (simp add: vzip_def blendNormal_def blendMultiply_def vmul_def blendScreen_def
      blendScreen_f_def blendAdd_def vmin_def vadd_def vsplat_def blendSubtract_def vmax_def
      vsub_def blendOverlay_def blendOverlay_f_def blendSoftLight_def blendSoftLight_f_def
      blendHardLight_def blendColorDodge_def blendColorDodge_f_def blendColorBurn_def
      blendColorBurn_f_def blendDarken_def blendDarken_f_def blendLighten_def
      blendLighten_f_def blendDifference_def vabs_def blendExclusion_def vscale_def
      power2_eq_square min.commute max.commute mult_ac)

text \<open>
  C2, as the claim states it, fails on the first pass over a cleared accumulator: where
  the layer is transparent the program writes the background colour with the
  background's own alpha, here 0, and does not force it to 1.
\<close>

theorem frag_main_alpha_not_forced:
  "alpha (frag_main 0 1 False (Vec4 0.2 0.4 0.6 0) (Vec4 0 0 0 0) (Vec4 0.2 0.4 0.6 0)) = 0 \<and>
   alpha (blendPixel_spec 0 (Vec4 0 0 0 0) (Vec4 0.2 0.4 0.6 0) 1 None) = 1"
  by (simp add: frag_main_def blendPixel_spec_def alpha_eff_def vec4_of_def)

text \<open>
  C2, amended. For every opcode, base colour \<open>B\<close>, layer colour \<open>L\<close>, layer opacity and
  optional mask, one fragment of the blend pass computes
  \<open>\<alpha> = L.alpha * layerOpacity * (mask red channel, or 1 without a mask)\<close>; for
  \<open>\<alpha> \<le> 0\<close> the output is \<open>B\<close> as it is, alpha included; otherwise the output is
  \<open>mix(applyBlendFunction(opcode, B.rgb, L.rgb), B.rgb, 1 - \<alpha>)\<close> with alpha 1, where
  \<open>applyBlendFunction\<close> is the table of the fourteen modes with \<open>NORMAL\<close> for any other
  opcode.
\<close>

theorem frag_main_blendPixel:
  "frag_main opcode layerOpacity hasMask L B M =
     blendPixel opcode B L layerOpacity (if hasMask then Some M else None)"
  by (simp add: frag_main_def blendPixel_def alpha_eff_def applyBlendMode_table Let_def)

theorem frag_main_blendPixel_witness:
  "frag_main 1 0.5 False (Vec4 1 1 1 1) (Vec4 1 0 0 1) (Vec4 1 1 1 1) = Vec4 1 0 0 1 \<and>
   frag_main 2 1 True (Vec4 0 0 1 1) (Vec4 1 0 0 1) (Vec4 0 0 0 0) = Vec4 1 0 0 1"
  using frag_main_blendPixel [of 1 "0.5" False "Vec4 1 1 1 1" "Vec4 1 0 0 1" "Vec4 1 1 1 1"]
    frag_main_blendPixel [of 2 1 True "Vec4 0 0 1 1" "Vec4 1 0 0 1" "Vec4 0 0 0 0"]
  by (simp add: blendPixel_def alpha_eff_def applyBlendFunction_def blendChannel_def mix_def
      vzip_def vadd_def vscale_def vec4_of_def rgb_def)

section \<open>Invariants of the reachable states\<close>


lemma mapAt_map_of:
  "map_of (map (\<lambda>(k', l). if k' = k then (k', f l) else (k', l)) xs) k' =
   (if k' = k then map_option f (map_of xs k') else map_of xs k')"
  by (induction xs) (auto split: prod.splits)

lemma modifyLayer_keys [simp]: "map fst (layers (modifyLayer k f s)) = map fst (layers s)"
  by (auto simp: modifyLayer_def split: prod.splits)

lemma modifyLayer_fields [simp]:
  "activeLayerId (modifyLayer k f s) = activeLayerId s"
  "layerNames (modifyLayer k f s) = layerNames s"
  "compositor (modifyLayer k f s) = compositor s"
  "ui (modifyLayer k f s) = ui s"
  "layerIdCounter (modifyLayer k f s) = layerIdCounter s"
  "autoResize (modifyLayer k f s) = autoResize s"
  by (simp_all add: modifyLayer_def)

lemma modifyLayer_set:
  "set (layers (modifyLayer k f s)) = (\<lambda>(k', l). (k', if k' = k then f l else l)) ` set (layers s)"
  by (force simp: modifyLayer_def image_iff split: if_splits prod.splits)

lemma modifyLayer_map_of:
  "map_of (layers (modifyLayer k f s)) k' =
    (if k' = k then map_option f (map_of (layers s) k') else map_of (layers s) k')"
  by (simp add: modifyLayer_def mapAt_map_of)

lemma wellFormed_fields: "wellFormed (LayerSystem_fields p)"
  by (simp add: wellFormed_def LayerSystem_fields_def)

lemma keys_image: "fst ` set xs = set (map fst xs)"
  by simp

text \<open>A method that keeps id and name and does not bind the framebuffer.\<close>

lemma wellFormed_modifyLayer:
  assumes "wellFormed s"
    and "\<And>l. lid (f l) = lid l \<and> name (f l) = name l \<and> (isDrawing (f l) \<longrightarrow> isDrawing l)"
  shows "wellFormed (modifyLayer k f s)"
  using assms unfolding wellFormed_def keys_image modifyLayer_keys modifyLayer_fields
  by (auto simp: modifyLayer_set split: if_splits)

lemma Layer_end_props:
  "Layer_end p l = (p', l') \<Longrightarrow> lid l' = lid l \<and> name l' = name l \<and> \<not> isDrawing l'"
  by (auto simp: Layer_end_def isDrawing_def split: option.splits)

lemma Layer_begin_props:
  "Layer_begin p l = (p', l') \<Longrightarrow> lid l' = lid l \<and> name l' = name l"
  by (auto simp: Layer_begin_def split: option.splits)

lemma wellFormed_replace:
  assumes wf: "wellFormed s" and kin: "(k, l) \<in> set (layers s)"
    and props: "lid l1 = lid l" "name l1 = name l"
    and lay: "layers s' = layers (modifyLayer k (\<lambda>_. l1) s)"
    and d1: "isDrawing l1 \<Longrightarrow> activeLayerId s' = Some k"
    and dold: "\<And>k' l'. (k', l') \<in> set (layers s) \<Longrightarrow> k' \<noteq> k \<Longrightarrow> isDrawing l' \<Longrightarrow>
                 activeLayerId s' = Some k'"
    and act: "\<And>a. activeLayerId s' = Some a \<Longrightarrow> a \<in> fst ` set (layers s)"
  shows "wellFormed s'"
proof -
  have sub: "\<And>k' l'. (k', l') \<in> set (layers s') \<Longrightarrow>
      (k' \<noteq> k \<and> (k', l') \<in> set (layers s)) \<or> (k' = k \<and> l' = l1)"
    unfolding lay modifyLayer_set by (auto split: if_splits)
  have keys: "map fst (layers s') = map fst (layers s)"
    unfolding lay by simp
  have old: "\<And>k' l'. (k', l') \<in> set (layers s) \<Longrightarrow> lid l' = k' \<and> name l' \<noteq> []"
    using wf unfolding wellFormed_def by blast
  show ?thesis
    unfolding wellFormed_def
  proof (intro conjI)
    show "distinct (map fst (layers s'))"
      unfolding keys using wf by (simp add: wellFormed_def)
    show "\<forall>(k, l)\<in>set (layers s'). lid l = k \<and> name l \<noteq> []"
    proof (clarify)
      fix k' l' assume "(k', l') \<in> set (layers s')"
      from sub [OF this] show "lid l' = k' \<and> name l' \<noteq> []"
        using old old [OF kin] props by auto
    qed
    show "\<forall>(k, l)\<in>set (layers s'). isDrawing l \<longrightarrow> activeLayerId s' = Some k"
    proof (clarify)
      fix k' l' assume "(k', l') \<in> set (layers s')" and d: "isDrawing l'"
      from sub [OF this(1)] show "activeLayerId s' = Some k'"
        using d d1 dold by auto
    qed
    show "\<forall>a. activeLayerId s' = Some a \<longrightarrow> a \<in> fst ` set (layers s')"
      using act unfolding keys_image keys by simp
  qed
qed

lemma LayerSystem_end_wellFormed:
  assumes "wellFormed s" and "LayerSystem_end (p, s) = (p', s')"
  shows "wellFormed s' \<and> activeLayerId s' = None \<and> (\<forall>(k, l) \<in> set (layers s'). \<not> isDrawing l)
     \<and> map fst (layers s') = map fst (layers s) \<and> layerNames s' = layerNames s"
proof (cases "activeLayerId s")
  case None
  then have "s' = s" using assms(2) by (simp add: LayerSystem_end_def)
  moreover have "\<forall>(k, l) \<in> set (layers s). \<not> isDrawing l"
    using assms(1) None unfolding wellFormed_def by auto
  ultimately show ?thesis using assms(1) None by simp
next
  case (Some a)
  then have "a \<in> fst ` set (layers s)"
    using assms(1) unfolding wellFormed_def by blast
  then obtain l0 where "(a, l0) \<in> set (layers s)" by auto
  then obtain l where l: "map_of (layers s) a = Some l"
    using weak_map_of_SomeI by fast
  obtain p1 l1 where e: "Layer_end p l = (p1, l1)" by force
  have s': "s' = (modifyLayer a (\<lambda>_. l1) s)
      \<lparr>ui := map_option (\<lambda>calls. calls @ [UiScheduleThumbnailUpdate (lid l1)]) (ui s),
       activeLayerId := None\<rparr>"
    using assms(2) Some l e by (simp add: LayerSystem_end_def)
  have al: "(a, l) \<in> set (layers s)" using l by (simp add: map_of_SomeD)
  have props: "lid l1 = lid l" "name l1 = name l" "\<not> isDrawing l1"
    using Layer_end_props [OF e] by simp_all
  have lay: "layers s' = layers (modifyLayer a (\<lambda>_. l1) s)" and act: "activeLayerId s' = None"
    unfolding s' by simp_all
  have others: "\<And>k' l'. (k', l') \<in> set (layers s) \<Longrightarrow> k' \<noteq> a \<Longrightarrow> \<not> isDrawing l'"
    using assms(1) Some unfolding wellFormed_def by auto
  have wf': "wellFormed s'"
    using assms(1) al props(1,2) lay
  proof (rule wellFormed_replace)
    show "isDrawing l1 \<Longrightarrow> activeLayerId s' = Some a" using props(3) by simp
    show "\<And>k' l'. (k', l') \<in> set (layers s) \<Longrightarrow> k' \<noteq> a \<Longrightarrow> isDrawing l' \<Longrightarrow>
                 activeLayerId s' = Some k'" using others by blast
    show "\<And>a. activeLayerId s' = Some a \<Longrightarrow> a \<in> fst ` set (layers s)" using act by simp
  qed
  have nodraw: "\<forall>(k, l) \<in> set (layers s'). \<not> isDrawing l"
    using wf' act unfolding wellFormed_def by auto
  show ?thesis
    using wf' act nodraw unfolding s' by simp
qed

lemma findLayer_Some:
  "findLayer s r = Some (k, l) \<Longrightarrow> map_of (layers s) k = Some l"
  by (auto simp: findLayer_def split: jsval.splits option.splits)

lemma findLayer_cong:
  "map_of (layers s') = map_of (layers s) \<Longrightarrow> layerNames s' = layerNames s \<Longrightarrow>
   findLayer s' r = findLayer s r"
  by (simp add: findLayer_def split: jsval.splits option.splits)

lemma LayerSystem_begin_wellFormed:
  assumes "wellFormed s" and "LayerSystem_begin r (p, s) = (p', s')"
  shows "wellFormed s'"
proof -
  obtain p1 s1 where mid:
    "(case activeLayerId s of Some a \<Rightarrow> LayerSystem_end (emit (WarnAlreadyActive a) p, s)
      | None \<Rightarrow> (p, s)) = (p1, s1)"
    by force
  have s1: "wellFormed s1 \<and> activeLayerId s1 = None \<and> (\<forall>(k, l) \<in> set (layers s1). \<not> isDrawing l)"
  proof (cases "activeLayerId s")
    case None
    with mid assms(1) show ?thesis by (auto simp: wellFormed_def)
  next
    case (Some a)
    with mid have "LayerSystem_end (emit (WarnAlreadyActive a) p, s) = (p1, s1)" by simp
    from LayerSystem_end_wellFormed [OF assms(1) this] show ?thesis by simp
  qed
  show ?thesis
  proof (cases "findLayer s1 r")
    case None
    with assms(2) mid have "s' = s1" by (simp add: LayerSystem_begin_def)
    with s1 show ?thesis by simp
  next
    case (Some kl)
    obtain k l where kl: "kl = (k, l)" by force
    obtain p2 l' where b: "Layer_begin p1 l = (p2, l')" by force
    have s': "s' = (modifyLayer k (\<lambda>_. l') s1)\<lparr>activeLayerId := Some (lid l')\<rparr>"
      using assms(2) mid Some kl b by (simp add: LayerSystem_begin_def)
    have kin: "(k, l) \<in> set (layers s1)"
      using findLayer_Some Some kl by (simp add: map_of_SomeD)
    then have "lid l = k" using s1 by (auto simp: wellFormed_def)
    then have props: "lid l' = k" "name l' = name l"
      using Layer_begin_props [OF b] by simp_all
    have lay: "layers s' = layers (modifyLayer k (\<lambda>_. l') s1)"
      and act: "activeLayerId s' = Some k"
      unfolding s' using props by simp_all
    have wf1: "wellFormed s1" using s1 by simp
    have nodraw: "\<And>k' l'. (k', l') \<in> set (layers s1) \<Longrightarrow> \<not> isDrawing l'"
      using s1 by auto
    have "lid l' = lid l" using props \<open>lid l = k\<close> by simp
    with wf1 kin show ?thesis
      using props(2) lay
    proof (rule wellFormed_replace)
      show "isDrawing l' \<Longrightarrow> activeLayerId s' = Some k" using act by simp
      show "\<And>k' l'. (k', l') \<in> set (layers s1) \<Longrightarrow> k' \<noteq> k \<Longrightarrow> isDrawing l' \<Longrightarrow>
                 activeLayerId s' = Some k'" using nodraw by blast
      show "\<And>a. activeLayerId s' = Some a \<Longrightarrow> a \<in> fst ` set (layers s1)"
        using act kin by force
    qed
  qed
qed

lemma createFramebuffer_Some:
  "createFramebuffer p w h d dep aa = (Some fb, p') \<Longrightarrow>
   fb = \<lparr>fb_width = w, fb_height = h, fb_density = d, fb_depth = dep, fb_antialias = aa,
          fb_pixels = transparent, fb_drawing = False\<rparr>"
  by (cases "createFramebuffer_outcomes p") (auto simp: createFramebuffer_def Let_def split: if_splits)

lemma createFramebuffer_host:
  "createFramebuffer p w h d dep aa = (fbo, p') \<Longrightarrow>
   p_width p' = p_width p \<and> p_height p' = p_height p \<and> p_pixelDensity p' = p_pixelDensity p \<and>
   console p' = console p \<and> canvas p' = canvas p"
  by (cases "createFramebuffer_outcomes p") (auto simp: createFramebuffer_def Let_def split: if_splits)

lemma Layer_createFramebuffer_Some:
  assumes "Layer_createFramebuffer p l = (Some fb, p')"
  shows "fb_width fb = width l \<and> fb_height fb = height l \<and> fb_density fb = density l \<and>
         fb_pixels fb = transparent \<and> \<not> fb_drawing fb"
proof -
  obtain fbo p1 where c: "createFramebuffer p (width l) (height l) (density l)
            (if depth l \<noteq> JUndefined then Some (depth l) else None)
            (if antialias l \<noteq> JUndefined then Some (antialias l) else None) = (fbo, p1)"
    by force
  with assms have "fbo = Some fb"
    by (cases fbo) (simp_all add: Layer_createFramebuffer_def)
  with c createFramebuffer_Some show ?thesis by fastforce
qed

lemma Layer_new_props:
  assumes "Layer_new p i nm opts = (Inr l, p')"
  shows "lid l = i \<and> name l \<noteq> [] \<and> \<not> isDrawing l"
proof -
  define l0 where "l0 = \<lparr>lid = i,
              name = (if nm \<noteq> [] then nm else ''Layer '' @ String_of i),
              visible = (case opt_visible opts of None \<Rightarrow> True | Some v \<Rightarrow> v),
              opacity = clampOpacity (case opt_opacity opts of None \<Rightarrow> 1 | Some v \<Rightarrow> v),
              blendMode = (case opt_blendMode opts of None \<Rightarrow> NORMAL | Some m \<Rightarrow> m),
              zIndex = (case opt_zIndex opts of None \<Rightarrow> of_int i | Some z \<Rightarrow> z),
              width = (case opt_width opts of None \<Rightarrow> p_width p | Some w \<Rightarrow> w),
              height = (case opt_height opts of None \<Rightarrow> p_height p | Some h \<Rightarrow> h),
              density = (case opt_density opts of None \<Rightarrow> p_pixelDensity p | Some d \<Rightarrow> d),
              depth = (case opt_depth opts of None \<Rightarrow> JBool False | Some d \<Rightarrow> d),
              antialias = (case opt_antialias opts of None \<Rightarrow> JBool False | Some a \<Rightarrow> a),
              customSize = (opt_width opts \<noteq> None \<or> opt_height opts \<noteq> None \<or>
                            opt_density opts \<noteq> None),
              layer_mask = None,
              hasBeenDrawnTo = False,
              framebuffer = None\<rparr>"
  obtain fbo p1 where c: "Layer_createFramebuffer p l0 = (fbo, p1)" by force
  have unfold: "Layer_new p i nm opts =
      (case Layer_createFramebuffer p l0 of
          (None, p') \<Rightarrow> (Inl (LibError (''Failed to create framebuffer for layer '' @ name l0)), p')
        | (Some fb, p') \<Rightarrow> (Inr (l0\<lparr>framebuffer := Some fb\<rparr>), p'))"
    unfolding Layer_new_def l0_def Let_def ..
  from assms obtain fb where fb: "fbo = Some fb" "l = l0\<lparr>framebuffer := Some fb\<rparr>"
    unfolding unfold c by (cases fbo) auto
  have "\<not> fb_drawing fb"
    using Layer_createFramebuffer_Some c fb(1) by blast
  then show ?thesis
    unfolding fb(2) by (simp add: l0_def isDrawing_def)
qed

lemma update_keys: "fst ` set (AList.update k v al) = insert k (fst ` set al)"
  using dom_update [of k v al] by (simp add: dom_map_of_conv_image_fst update_conv' del: dom_update)

lemma update_set_subset: "set (AList.update k v al) \<subseteq> insert (k, v) (set al)"
  by (induction al) auto

lemma LayerSystem_createLayer_wellFormed:
  assumes "wellFormed s" and "LayerSystem_createLayer nm opts (p, s) = (res, p', s')"
  shows "wellFormed s'"
proof (cases "Layer_new p (layerIdCounter s) (if nm \<noteq> [] then nm else ''Layer '' @ String_of (layerIdCounter s))
                (opts\<lparr>opt_zIndex := (case opt_zIndex opts of Some z \<Rightarrow> Some z | None \<Rightarrow> Some (of_int (layerIdCounter s)))\<rparr>)")
  case (Pair x p1)
  show ?thesis
  proof (cases x)
    case (Inl e)
    with Pair assms(2) have "s' = s\<lparr>layerIdCounter := layerIdCounter s + 1\<rparr>"
      by (simp add: LayerSystem_createLayer_def Let_def)
    with assms(1) show ?thesis by (simp add: wellFormed_def)
  next
    case (Inr l)
    with Pair assms(2) have s': "layers s' = AList.update (layerIdCounter s) l (layers s)"
      "activeLayerId s' = activeLayerId s"
      by (auto simp add: LayerSystem_createLayer_def Let_def split: if_splits)
    have props: "lid l = layerIdCounter s" "name l \<noteq> []" "\<not> isDrawing l"
      using Layer_new_props Pair Inr by blast+
    have sub: "set (layers s') \<subseteq> insert (layerIdCounter s, l) (set (layers s))"
      unfolding s' by (rule update_set_subset)
    have keys: "fst ` set (layers s') = insert (layerIdCounter s) (fst ` set (layers s))"
      unfolding s' by (rule update_keys)
    have dist: "distinct (map fst (layers s'))"
      unfolding s' using assms(1) by (simp add: wellFormed_def distinct_update)
    show ?thesis
      unfolding wellFormed_def
    proof (intro conjI)
      show "distinct (map fst (layers s'))" by (rule dist)
      show "\<forall>(k, l)\<in>set (layers s'). lid l = k \<and> name l \<noteq> []"
        using sub props assms(1) by (auto simp: wellFormed_def)
      show "\<forall>(k, l)\<in>set (layers s'). isDrawing l \<longrightarrow> activeLayerId s' = Some k"
        using sub props assms(1) s'(2) by (auto simp: wellFormed_def)
      show "\<forall>a. activeLayerId s' = Some a \<longrightarrow> a \<in> fst ` set (layers s')"
        using keys s'(2) assms(1) by (auto simp: wellFormed_def)
    qed
  qed
qed


lemma delete_set: "set (AList.delete k al) = {kv \<in> set al. fst kv \<noteq> k}"
  by (auto simp: AList.delete_eq)

lemma LayerSystem_removeLayer_wellFormed:
  assumes "wellFormed s" and "LayerSystem_removeLayer r (p, s) = (p', s')"
  shows "wellFormed s'"
proof (cases "findLayer s r")
  case None
  with assms show ?thesis by (simp add: LayerSystem_removeLayer_def)
next
  case (Some kl)
  obtain k l where kl: "kl = (k, l)" by force
  have kin: "(k, l) \<in> set (layers s)"
    using findLayer_Some Some kl by (simp add: map_of_SomeD)
  then have lk: "lid l = k" using assms(1) by (auto simp: wellFormed_def)
  obtain p1 s1 where mid:
    "(if activeLayerId s = Some k then LayerSystem_end (p, s) else (p, s)) = (p1, s1)"
    by force
  have s1: "wellFormed s1 \<and> activeLayerId s1 \<noteq> Some k"
  proof (cases "activeLayerId s = Some k")
    case True
    with mid have "LayerSystem_end (p, s) = (p1, s1)" by simp
    from LayerSystem_end_wellFormed [OF assms(1) this] show ?thesis by simp
  next
    case False
    with mid assms(1) show ?thesis by auto
  qed
  define s2 where "s2 = (if name l \<noteq> [] then s1\<lparr>layerNames := (layerNames s1)(name l := None)\<rparr> else s1)"
  have s': "s' = (modifyLayer k Layer_dispose s2)\<lparr>layers := AList.delete k (layers (modifyLayer k Layer_dispose s2))\<rparr>"
    using assms(2) Some kl mid lk by (simp add: LayerSystem_removeLayer_def s2_def Let_def)
  have s2: "wellFormed s2 \<and> activeLayerId s2 \<noteq> Some k"
    using s1 by (simp add: s2_def wellFormed_def)
  have "\<And>l. lid (Layer_dispose l) = lid l \<and> name (Layer_dispose l) = name l \<and>
      (isDrawing (Layer_dispose l) \<longrightarrow> isDrawing l)"
    by (simp add: Layer_dispose_def isDrawing_def)
  then have s3: "wellFormed (modifyLayer k Layer_dispose s2)"
    using s2 wellFormed_modifyLayer by blast
  let ?s3 = "modifyLayer k Layer_dispose s2"
  have sub: "set (layers s') \<subseteq> set (layers ?s3)"
    unfolding s' by (auto simp: delete_set)
  have keys: "fst ` set (layers s') = fst ` set (layers ?s3) - {k}"
    unfolding s' by (force simp: delete_set)
  have act: "activeLayerId s' = activeLayerId s2"
    unfolding s' by simp
  show ?thesis
    unfolding wellFormed_def
  proof (intro conjI)
    show "distinct (map fst (layers s'))"
      unfolding s' using s3 by (simp add: wellFormed_def distinct_delete)
    show "\<forall>(k, l)\<in>set (layers s'). lid l = k \<and> name l \<noteq> []"
      using sub s3 unfolding wellFormed_def by blast
    show "\<forall>(k, l)\<in>set (layers s'). isDrawing l \<longrightarrow> activeLayerId s' = Some k"
      using sub s3 unfolding wellFormed_def act by (simp add: subset_iff) blast
    show "\<forall>a. activeLayerId s' = Some a \<longrightarrow> a \<in> fst ` set (layers s')"
      using s3 s2 unfolding wellFormed_def act keys by auto
  qed
qed

lemma withLayer_wellFormed:
  assumes "wellFormed s" and "withLayer r m (p, s) = (p', s')"
    and "\<And>p l p' l'. m p l = (p', l') \<Longrightarrow>
           lid l' = lid l \<and> name l' = name l \<and> (isDrawing l' \<longrightarrow> isDrawing l)"
  shows "wellFormed s'"
proof (cases "findLayer s r")
  case None
  with assms show ?thesis by (simp add: withLayer_def)
next
  case (Some kl)
  obtain k l where kl: "kl = (k, l)" by force
  obtain p1 l1 where m: "m p l = (p1, l1)" by force
  have s': "s' = modifyLayer k (\<lambda>_. l1) s"
    using assms(2) Some kl m by (simp add: withLayer_def)
  have kin: "(k, l) \<in> set (layers s)"
    using findLayer_Some Some kl by (simp add: map_of_SomeD)
  have props: "lid l1 = lid l" "name l1 = name l" "isDrawing l1 \<longrightarrow> isDrawing l"
    using assms(3) [OF m] by simp_all
  have lay: "layers s' = layers (modifyLayer k (\<lambda>_. l1) s)"
    and act: "activeLayerId s' = activeLayerId s"
    unfolding s' by simp_all
  have old: "\<And>k' l'. (k', l') \<in> set (layers s) \<Longrightarrow> isDrawing l' \<Longrightarrow> activeLayerId s = Some k'"
    using assms(1) unfolding wellFormed_def by blast
  from assms(1) kin props(1,2) lay show ?thesis
  proof (rule wellFormed_replace)
    show "isDrawing l1 \<Longrightarrow> activeLayerId s' = Some k"
      using props(3) old [OF kin] act by simp
    show "\<And>k' l'. (k', l') \<in> set (layers s) \<Longrightarrow> k' \<noteq> k \<Longrightarrow> isDrawing l' \<Longrightarrow>
                 activeLayerId s' = Some k'" using old act by simp
    show "\<And>a. activeLayerId s' = Some a \<Longrightarrow> a \<in> fst ` set (layers s)"
      using assms(1) act unfolding wellFormed_def by simp
  qed
qed

lemma withLayer_wellFormed_snd:
  assumes "wellFormed s"
    and "\<And>p l p' l'. m p l = (p', l') \<Longrightarrow>
           lid l' = lid l \<and> name l' = name l \<and> (isDrawing l' \<longrightarrow> isDrawing l)"
  shows "wellFormed (snd (withLayer r m (p, s)))"
proof -
  obtain p' s' where w: "withLayer r m (p, s) = (p', s')" by force
  have "wellFormed s'" using assms(1) w assms(2) by (rule withLayer_wellFormed)
  then show ?thesis using w by simp
qed

lemma reorderFrom_wellFormed:
  "wellFormed s \<Longrightarrow> wellFormed (reorderFrom n ks s)"
proof (induction ks arbitrary: n s)
  case Nil
  then show ?case by simp
next
  case (Cons k ks)
  have "wellFormed (modifyLayer k (Layer_setZIndex (of_nat n)) s)"
    using Cons.prems by (rule wellFormed_modifyLayer) (simp add: Layer_setZIndex_def isDrawing_def)
  then show ?case using Cons.IH by simp
qed

lemma Layer_resize_props:
  assumes "Layer_resize w h d p l = (p', l')"
  shows "lid l' = lid l \<and> name l' = name l \<and> \<not> isDrawing l'"
proof -
  define l2 where "l2 = l\<lparr>width := w, height := h, density := d,
      customSize := \<not> (w = p_width p \<and> h = p_height p \<and> d = p_pixelDensity p)\<rparr>"
  obtain fbo p1 where c: "Layer_createFramebuffer p l2 = (fbo, p1)" by force
  have l': "l' = l2\<lparr>framebuffer := fbo\<rparr>"
    using assms c unfolding Layer_resize_def Let_def l2_def by simp
  have "\<not> isDrawing l'"
  proof (cases fbo)
    case None
    then show ?thesis unfolding l' by (simp add: isDrawing_def)
  next
    case (Some fb)
    then have "\<not> fb_drawing fb" using Layer_createFramebuffer_Some c by blast
    then show ?thesis unfolding l' Some by (simp add: isDrawing_def)
  qed
  then show ?thesis unfolding l' by (simp add: l2_def)
qed

lemma resizeLayers_props:
  "resizeLayers w h d p xs = (p', ys) \<Longrightarrow>
   list_all2 (\<lambda>(k, l) (k', l'). k' = k \<and> lid l' = lid l \<and> name l' = name l \<and>
                (isDrawing l' \<longrightarrow> isDrawing l)) xs ys"
proof (induction xs arbitrary: p p' ys)
  case Nil
  then show ?case by simp
next
  case (Cons x xs)
  obtain k l where x: "x = (k, l)" by force
  obtain p1 l1 where h: "(if \<not> customSize l then Layer_resize w h d p l else (p, l)) = (p1, l1)"
    by force
  obtain p2 rest where r: "resizeLayers w h d p1 xs = (p2, rest)" by force
  have ys: "ys = (k, l1) # rest" using Cons.prems x h r by simp
  have "lid l1 = lid l \<and> name l1 = name l \<and> (isDrawing l1 \<longrightarrow> isDrawing l)"
    using h Layer_resize_props by (auto split: if_splits)
  then show ?case using Cons.IH [OF r] x ys by simp
qed

lemma wellFormed_list_all2:
  assumes "wellFormed s"
    and "list_all2 (\<lambda>(k, l) (k', l'). k' = k \<and> lid l' = lid l \<and> name l' = name l \<and>
                (isDrawing l' \<longrightarrow> isDrawing l)) (layers s) ys"
    and "layers s' = ys" and "activeLayerId s' = activeLayerId s"
  shows "wellFormed s'"
proof -
  have keys: "map fst ys = map fst (layers s)"
    using assms(2) by (induction rule: list_all2_induct) auto
  have each: "\<And>k' l'. (k', l') \<in> set ys \<Longrightarrow>
      \<exists>l. (k', l) \<in> set (layers s) \<and> lid l' = lid l \<and> name l' = name l \<and> (isDrawing l' \<longrightarrow> isDrawing l)"
    using assms(2) by (induction rule: list_all2_induct) auto
  show ?thesis
    unfolding wellFormed_def assms(3,4) keys_image keys
    using assms(1) each unfolding wellFormed_def keys_image
    by (auto split: prod.splits) (metis case_prodD)+
qed


lemma LayerSystem_checkResize_wellFormed:
  assumes "wellFormed s" and "LayerSystem_checkResize (p, s) = (p', s')"
  shows "wellFormed s'"
proof (cases "p_width p = lastCanvasWidth s \<and> p_height p = lastCanvasHeight s \<and>
              p_pixelDensity p = lastPixelDensity s")
  case True
  with assms show ?thesis by (auto simp: LayerSystem_checkResize_def Let_def)
next
  case False
  obtain p1 ys where r: "resizeLayers (p_width p) (p_height p) (p_pixelDensity p) p (layers s) = (p1, ys)"
    by force
  have "layers s' = ys" "activeLayerId s' = activeLayerId s"
    using assms(2) False r by (auto simp: LayerSystem_checkResize_def Let_def)
  then show ?thesis
    using wellFormed_list_all2 [OF assms(1) resizeLayers_props [OF r]] by simp
qed

lemma LayerSystem_render_wellFormed:
  assumes "wellFormed s" and "LayerSystem_render cb (p, s) = (e, p', s')"
  shows "wellFormed s'"
proof -
  obtain p1 s1 where c: "(if autoResize s then LayerSystem_checkResize (p, s) else (p, s)) = (p1, s1)"
    by force
  have s1: "wellFormed s1"
    using c assms(1) LayerSystem_checkResize_wellFormed by (auto split: if_splits)
  have "layers s' = layers s1 \<and> activeLayerId s' = activeLayerId s1"
    using assms(2) c by (auto simp: LayerSystem_render_def split: prod.splits option.splits)
  then show ?thesis using s1 by (simp add: wellFormed_def)
qed

lemma LayerSystem_dispose_wellFormed:
  assumes "wellFormed s" and "LayerSystem_dispose (p, s) = (p', s')"
  shows "wellFormed s'"
proof -
  obtain p1 s1 where c: "(if activeLayerId s \<noteq> None then LayerSystem_end (p, s) else (p, s)) = (p1, s1)"
    by force
  have "activeLayerId s1 = None"
    using c LayerSystem_end_wellFormed [OF assms(1)] by (auto split: if_splits)
  moreover have "layers s' = [] \<and> activeLayerId s' = activeLayerId s1"
    using assms(2) c by (auto simp: LayerSystem_dispose_def Let_def)
  ultimately show ?thesis by (simp add: wellFormed_def)
qed

lemma drawActive_wellFormed: "wellFormed s \<Longrightarrow> wellFormed (drawActive img s)"
  unfolding drawActive_def
  by (auto split: option.splits if_splits intro!: wellFormed_modifyLayer
      simp: drawInto_def isDrawing_def)

lemma perform_wellFormed:
  assumes "wellFormed (snd w)"
  shows "wellFormed (snd (perform c w))"
proof (cases w)
  case (Pair p s)
  with assms have wf: "wellFormed s" by simp
  show ?thesis
  proof (cases c)
    case (CreateLayer nm opts)
    obtain res p' s' where r: "LayerSystem_createLayer nm opts (p, s) = (res, p', s')"
      by (rule prod_cases3)
    have "wellFormed s'" using wf r by (rule LayerSystem_createLayer_wellFormed)
    then show ?thesis using CreateLayer Pair r by simp
  next
    case (RemoveLayer r)
    obtain p' s' where r: "LayerSystem_removeLayer r (p, s) = (p', s')" by force
    have "wellFormed s'" using wf r by (rule LayerSystem_removeLayer_wellFormed)
    then show ?thesis using RemoveLayer Pair r by simp
  next
    case (Begin r)
    obtain p' s' where r: "LayerSystem_begin r (p, s) = (p', s')" by force
    have "wellFormed s'" using wf r by (rule LayerSystem_begin_wellFormed)
    then show ?thesis using Begin Pair r by simp
  next
    case End
    obtain p' s' where r: "LayerSystem_end (p, s) = (p', s')" by force
    have "wellFormed s'" using LayerSystem_end_wellFormed [OF wf r] by simp
    then show ?thesis using End Pair r by simp
  next
    case (Show r)
    have "wellFormed (snd (withLayer r (\<lambda>p l. (p, Layer_show l)) (p, s)))"
      by (rule withLayer_wellFormed_snd [OF wf]) (auto simp: Layer_show_def isDrawing_def)
    then show ?thesis using Show Pair by (simp add: LayerSystem_show_def)
  next
    case (Hide r)
    have "wellFormed (snd (withLayer r (\<lambda>p l. (p, Layer_hide l)) (p, s)))"
      by (rule withLayer_wellFormed_snd [OF wf]) (auto simp: Layer_hide_def isDrawing_def)
    then show ?thesis using Hide Pair by (simp add: LayerSystem_hide_def)
  next
    case (SetOpacity r v)
    have "wellFormed (snd (withLayer r (\<lambda>p l. (p, Layer_setOpacity v l)) (p, s)))"
      by (rule withLayer_wellFormed_snd [OF wf]) (auto simp: Layer_setOpacity_def isDrawing_def)
    then show ?thesis using SetOpacity Pair by (simp add: LayerSystem_setOpacity_def)
  next
    case (SetBlendMode r m)
    have "wellFormed (snd (withLayer r (Layer_setBlendMode m) (p, s)))"
      by (rule withLayer_wellFormed_snd [OF wf])
         (auto simp: Layer_setBlendMode_def isDrawing_def split: if_splits)
    then show ?thesis using SetBlendMode Pair by (simp add: LayerSystem_setBlendMode_def)
  next
    case (SetLayerIndex r z)
    have "wellFormed (snd (withLayer r (\<lambda>p l. (p, Layer_setZIndex z l)) (p, s)))"
      by (rule withLayer_wellFormed_snd [OF wf]) (auto simp: Layer_setZIndex_def isDrawing_def)
    then show ?thesis using SetLayerIndex Pair by (simp add: LayerSystem_setLayerIndex_def)
  next
    case (MoveLayer r d)
    have "wellFormed (snd (withLayer r (\<lambda>p l. (p, Layer_setZIndex (zIndex l + d) l)) (p, s)))"
      by (rule withLayer_wellFormed_snd [OF wf]) (auto simp: Layer_setZIndex_def isDrawing_def)
    then show ?thesis using MoveLayer Pair by (simp add: LayerSystem_moveLayer_def)
  next
    case (ReorderLayers ks)
    then show ?thesis
      using reorderFrom_wellFormed [OF wf] Pair by (simp add: LayerSystem_reorderLayers_def)
  next
    case (SetMask r src)
    have "wellFormed (snd (withLayer r (Layer_setMask src) (p, s)))"
      by (rule withLayer_wellFormed_snd [OF wf])
         (auto simp: Layer_setMask_def isDrawing_def split: option.splits)
    then show ?thesis using SetMask Pair by (simp add: LayerSystem_setMask_def)
  next
    case (ClearMask r)
    have "wellFormed (snd (withLayer r (\<lambda>p l. (p, Layer_clearMask l)) (p, s)))"
      by (rule withLayer_wellFormed_snd [OF wf]) (auto simp: Layer_clearMask_def isDrawing_def)
    then show ?thesis using ClearMask Pair by (simp add: LayerSystem_clearMask_def)
  next
    case (Render cb)
    obtain e p' s' where r: "LayerSystem_render cb (p, s) = (e, p', s')"
      by (rule prod_cases3)
    have "wellFormed s'" using wf r by (rule LayerSystem_render_wellFormed)
    then show ?thesis using Render Pair r by simp
  next
    case (SetAutoResize b)
    then show ?thesis using wf Pair by (simp add: LayerSystem_setAutoResize_def wellFormed_def)
  next
    case CreateUI
    then show ?thesis using wf Pair by (simp add: LayerSystem_createUI_def wellFormed_def)
  next
    case UpdateUI
    then show ?thesis using wf Pair by (simp add: LayerSystem_updateUI_def wellFormed_def)
  next
    case Dispose
    obtain p' s' where r: "LayerSystem_dispose (p, s) = (p', s')" by force
    have "wellFormed s'" using wf r by (rule LayerSystem_dispose_wellFormed)
    then show ?thesis using Dispose Pair r by simp
  next
    case (Draw img)
    then show ?thesis using drawActive_wellFormed [OF wf] Pair by simp
  next
    case (Host p')
    then show ?thesis using wf Pair by simp
  qed
qed

lemma reachable_wellFormed: "reachable w \<Longrightarrow> wellFormed (snd w)"
proof (induction rule: reachable.induct)
  case (reachable_new p s)
  then show ?case
    by (auto simp: LayerSystem_new_def wellFormed_fields split: if_splits)
next
  case (reachable_call w c)
  from reachable_call.IH show ?case by (rule perform_wellFormed)
qed

section \<open>\<open>begin\<close> and \<open>end\<close>\<close>


lemma LayerSystem_end_frame:
  assumes "LayerSystem_end (p, s) = (p', s')"
  shows "map fst (layers s') = map fst (layers s) \<and> layerNames s' = layerNames s \<and>
         activeLayerId s' = None"
  using assms
  by (auto simp: LayerSystem_end_def emit_def split: option.splits prod.splits)

lemma map_of_None_keys:
  "map fst xs = map fst ys \<Longrightarrow> (map_of xs k = None) = (map_of ys k = None)"
  by (metis map_of_eq_None_iff image_set)

lemma findLayer_None_keys:
  assumes "map fst (layers s') = map fst (layers s)" and "layerNames s' = layerNames s"
  shows "(findLayer s' r = None) = (findLayer s r = None)"
  using map_of_None_keys [OF assms(1)] assms(2)
  by (auto simp: findLayer_def split: jsval.splits option.splits)

lemma LayerSystem_begin_missing_eq:
  assumes "findLayer s r = None"
  shows "LayerSystem_begin r (p, s) =
     (case activeLayerId s of
        None \<Rightarrow> (emit (ErrorLayerNotFound r) p, s)
      | Some a \<Rightarrow>
          (case LayerSystem_end (emit (WarnAlreadyActive a) p, s) of
             (p1, s1) \<Rightarrow> (emit (ErrorLayerNotFound r) p1, s1)))"
proof (cases "activeLayerId s")
  case None
  with assms show ?thesis by (simp add: LayerSystem_begin_def)
next
  case (Some a)
  obtain p1 s1 where e: "LayerSystem_end (emit (WarnAlreadyActive a) p, s) = (p1, s1)" by force
  have "findLayer s1 r = None"
    using findLayer_None_keys [of s1 s r] LayerSystem_end_frame [OF e] assms by simp
  with Some e show ?thesis by (simp add: LayerSystem_begin_def)
qed

text \<open>What \<open>end\<close> and \<open>begin\<close> do to the layers of the map.\<close>

lemma Layer_end_effect:
  "Layer_end p l = (p', l') \<Longrightarrow>
   (framebuffer l' = None) = (framebuffer l = None) \<and> (hasBeenDrawnTo l \<longrightarrow> hasBeenDrawnTo l') \<and>
   (framebuffer l \<noteq> None \<longrightarrow> hasBeenDrawnTo l')"
  by (auto simp: Layer_end_def split: option.splits)

lemma Layer_begin_effect:
  "Layer_begin p l = (p', l') \<Longrightarrow>
   (framebuffer l' = None) = (framebuffer l = None) \<and> hasBeenDrawnTo l' = hasBeenDrawnTo l \<and>
   lid l' = lid l"
  by (auto simp: Layer_begin_def split: option.splits)

lemma LayerSystem_end_layers:
  assumes "LayerSystem_end (p, s) = (p', s')" and "map_of (layers s) k = Some l0"
  shows "\<exists>l1. map_of (layers s') k = Some l1 \<and>
           (framebuffer l1 = None) = (framebuffer l0 = None) \<and>
           (hasBeenDrawnTo l0 \<longrightarrow> hasBeenDrawnTo l1) \<and>
           (activeLayerId s = Some k \<and> framebuffer l0 \<noteq> None \<longrightarrow> hasBeenDrawnTo l1)"
proof (cases "activeLayerId s")
  case None
  with assms show ?thesis by (auto simp: LayerSystem_end_def)
next
  case (Some a)
  show ?thesis
  proof (cases "map_of (layers s) a")
    case None
    with Some assms show ?thesis by (auto simp: LayerSystem_end_def)
  next
    case (Some l)
    obtain p1 l1 where e: "Layer_end p l = (p1, l1)" by force
    have lay: "layers s' = layers (modifyLayer a (\<lambda>_. l1) s)"
      using assms(1) \<open>activeLayerId s = Some a\<close> Some e by (auto simp: LayerSystem_end_def)
    show ?thesis
    proof (cases "k = a")
      case True
      with Some assms(2) have "l0 = l" by simp
      with True Some Layer_end_effect [OF e] show ?thesis
        unfolding lay by (simp add: modifyLayer_map_of)
    next
      case False
      with assms(2) \<open>activeLayerId s = Some a\<close> show ?thesis
        unfolding lay by (simp add: modifyLayer_map_of)
    qed
  qed
qed

lemma LayerSystem_begin_frame:
  assumes "LayerSystem_begin r (p, s) = (p', s')"
  shows "map fst (layers s') = map fst (layers s) \<and> layerNames s' = layerNames s"
proof -
  obtain p1 s1 where mid:
    "(case activeLayerId s of Some a \<Rightarrow> LayerSystem_end (emit (WarnAlreadyActive a) p, s)
      | None \<Rightarrow> (p, s)) = (p1, s1)"
    by force
  have s1: "map fst (layers s1) = map fst (layers s) \<and> layerNames s1 = layerNames s"
    using mid LayerSystem_end_frame by (cases "activeLayerId s") auto
  show ?thesis
  proof (cases "findLayer s1 r")
    case None
    with assms mid have "s' = s1" by (simp add: LayerSystem_begin_def)
    with s1 show ?thesis by simp
  next
    case (Some kl)
    obtain k l where kl: "kl = (k, l)" by force
    obtain p2 l' where b: "Layer_begin p1 l = (p2, l')" by force
    have "s' = (modifyLayer k (\<lambda>_. l') s1)\<lparr>activeLayerId := Some (lid l')\<rparr>"
      using assms mid Some kl b by (simp add: LayerSystem_begin_def)
    with s1 show ?thesis by simp
  qed
qed

lemma LayerSystem_begin_layers:
  assumes "LayerSystem_begin r (p, s) = (p', s')" and "map_of (layers s) k = Some l0"
  shows "\<exists>l1. map_of (layers s') k = Some l1 \<and>
           (framebuffer l1 = None) = (framebuffer l0 = None) \<and>
           (hasBeenDrawnTo l0 \<longrightarrow> hasBeenDrawnTo l1) \<and>
           (activeLayerId s = Some k \<and> framebuffer l0 \<noteq> None \<longrightarrow> hasBeenDrawnTo l1)"
proof -
  let ?P = "\<lambda>l1. (framebuffer l1 = None) = (framebuffer l0 = None) \<and>
           (hasBeenDrawnTo l0 \<longrightarrow> hasBeenDrawnTo l1) \<and>
           (activeLayerId s = Some k \<and> framebuffer l0 \<noteq> None \<longrightarrow> hasBeenDrawnTo l1)"
  obtain p1 s1 where mid:
    "(case activeLayerId s of Some a \<Rightarrow> LayerSystem_end (emit (WarnAlreadyActive a) p, s)
      | None \<Rightarrow> (p, s)) = (p1, s1)"
    by force
  have "\<exists>l1. map_of (layers s1) k = Some l1 \<and> ?P l1"
  proof (cases "activeLayerId s")
    case None
    with mid have "s1 = s" by simp
    with None assms(2) show ?thesis by simp
  next
    case (Some a)
    with mid have "LayerSystem_end (emit (WarnAlreadyActive a) p, s) = (p1, s1)" by simp
    from LayerSystem_end_layers [OF this assms(2)] show ?thesis .
  qed
  then obtain l1 where l1: "map_of (layers s1) k = Some l1" and P1: "?P l1"
    by (elim exE conjE) (rule that, assumption, intro conjI, assumption+)
  show ?thesis
  proof (cases "findLayer s1 r")
    case None
    with assms(1) mid have "s' = s1" by (simp add: LayerSystem_begin_def)
    then have "map_of (layers s') k = Some l1" using l1 by simp
    with P1 show ?thesis by (intro exI [of _ l1] conjI) simp_all
  next
    case (Some kl)
    obtain k' l where kl: "kl = (k', l)" by force
    obtain p2 l' where b: "Layer_begin p1 l = (p2, l')" by force
    have "s' = (modifyLayer k' (\<lambda>_. l') s1)\<lparr>activeLayerId := Some (lid l')\<rparr>"
      using assms(1) mid Some kl b by (simp add: LayerSystem_begin_def)
    then have lay: "layers s' = layers (modifyLayer k' (\<lambda>_. l') s1)"
      by simp
    have found: "map_of (layers s1) k' = Some l" using findLayer_Some Some kl by simp
    show ?thesis
    proof (cases "k = k'")
      case True
      with found l1 have ll: "l = l1" by simp
      have m: "map_of (layers s') k = Some l'"
        unfolding lay modifyLayer_map_of using True l1 by simp
      have eff: "(framebuffer l' = None) = (framebuffer l1 = None)"
          "hasBeenDrawnTo l' = hasBeenDrawnTo l1"
        using Layer_begin_effect [OF b] unfolding ll by simp_all
      have "?P l'" using P1 unfolding eff by simp
      with m show ?thesis by (intro exI [of _ l'] conjI) simp_all
    next
      case False
      have "map_of (layers s') k = Some l1"
        unfolding lay modifyLayer_map_of using False l1 by simp
      with P1 show ?thesis by (intro exI [of _ l1] conjI) simp_all
    qed
  qed
qed

lemma findLayer_keys:
  assumes "findLayer s r = Some (k, l)"
    and "map fst (layers s') = map fst (layers s)" and "layerNames s' = layerNames s"
  shows "\<exists>l'. findLayer s' r = Some (k, l')"
proof -
  have "map_of (layers s) k = Some l" using assms(1) by (rule findLayer_Some)
  then have "map_of (layers s') k \<noteq> None"
    using map_of_None_keys [OF assms(2), of k] by simp
  then obtain l' where l': "map_of (layers s') k = Some l'" by auto
  show ?thesis
    using assms(1,3) l'
    by (auto simp: findLayer_def split: jsval.splits option.splits)
qed

lemma LayerSystem_begin_found:
  assumes "wellFormed s" and "findLayer s r = Some (k, l)" and "LayerSystem_begin r (p, s) = (p', s')"
  shows "activeLayerId s' = Some k"
proof -
  obtain p1 s1 where mid:
    "(case activeLayerId s of Some a \<Rightarrow> LayerSystem_end (emit (WarnAlreadyActive a) p, s)
      | None \<Rightarrow> (p, s)) = (p1, s1)"
    by force
  have frame: "map fst (layers s1) = map fst (layers s) \<and> layerNames s1 = layerNames s"
    using mid LayerSystem_end_frame by (cases "activeLayerId s") auto
  have wf1: "wellFormed s1"
    using mid assms(1) LayerSystem_end_wellFormed by (cases "activeLayerId s") auto
  obtain l1 where f1: "findLayer s1 r = Some (k, l1)"
    using findLayer_keys [OF assms(2)] frame by blast
  obtain p2 l2 where b: "Layer_begin p1 l1 = (p2, l2)" by force
  have "(k, l1) \<in> set (layers s1)" using findLayer_Some [OF f1] by (rule map_of_SomeD)
  then have "lid l1 = k" using wf1 unfolding wellFormed_def by blast
  then have "lid l2 = k" using Layer_begin_effect [OF b] by simp
  then show ?thesis
    using assms(3) mid f1 b by (auto simp: LayerSystem_begin_def)
qed

lemma wellFormed_activeLayers:
  assumes "wellFormed s"
  shows "length (activeLayers s) \<le> 1 \<and> set (activeLayers s) \<subseteq> set_option (activeLayerId s)"
proof -
  have sub: "set (activeLayers s) \<subseteq> set_option (activeLayerId s)"
    using assms unfolding wellFormed_def activeLayers_def by auto
  have "distinct (activeLayers s)"
    using assms unfolding wellFormed_def activeLayers_def by (simp add: distinct_map_filter)
  then have "length (activeLayers s) = card (set (activeLayers s))"
    by (simp add: distinct_card)
  also have "\<dots> \<le> card (set_option (activeLayerId s))"
    using sub by (simp add: card_mono)
  also have "\<dots> \<le> 1" by (cases "activeLayerId s") simp_all
  finally show ?thesis using sub by simp
qed

lemma begin_begin:
  assumes wf: "wellFormed s"
    and fa: "findLayer s ra = Some (ka, a)" and fb: "findLayer s rb = Some (kb, b)"
    and b1: "LayerSystem_begin ra (p, s) = (p1, s1)"
    and b2: "LayerSystem_begin rb (p1, s1) = (p2, s2)"
  shows "activeLayerId s1 = Some ka \<and>
         LayerSystem_begin rb (p1, s1) =
           LayerSystem_begin rb (LayerSystem_end (emit (WarnAlreadyActive ka) p1, s1)) \<and>
         activeLayerId s2 = Some kb \<and> set (activeLayers s2) \<subseteq> {kb} \<and>
         length (activeLayers s2) \<le> 1 \<and>
         (framebuffer a \<noteq> None \<longrightarrow> (\<exists>l. map_of (layers s2) ka = Some l \<and> hasBeenDrawnTo l))"
proof -
  have act1: "activeLayerId s1 = Some ka" using wf fa b1 by (rule LayerSystem_begin_found)
  have wf1: "wellFormed s1" using wf b1 by (rule LayerSystem_begin_wellFormed)
  have frame1: "map fst (layers s1) = map fst (layers s) \<and> layerNames s1 = layerNames s"
    using b1 by (rule LayerSystem_begin_frame)
  obtain b' where fb1: "findLayer s1 rb = Some (kb, b')"
    using findLayer_keys [OF fb] frame1 by blast
  have act2: "activeLayerId s2 = Some kb" using wf1 fb1 b2 by (rule LayerSystem_begin_found)
  have wf2: "wellFormed s2" using wf1 b2 by (rule LayerSystem_begin_wellFormed)
  obtain p' s' where e: "LayerSystem_end (emit (WarnAlreadyActive ka) p1, s1) = (p', s')" by force
  have "activeLayerId s' = None" using LayerSystem_end_frame [OF e] by simp
  then have eq: "LayerSystem_begin rb (p1, s1) = LayerSystem_begin rb (p', s')"
    using act1 e by (simp add: LayerSystem_begin_def)
  have a0: "map_of (layers s) ka = Some a" using fa by (rule findLayer_Some)
  from LayerSystem_begin_layers [OF b1 a0]
  obtain a1 where a1: "map_of (layers s1) ka = Some a1"
    and fb1: "(framebuffer a1 = None) = (framebuffer a = None)"
    by (elim exE conjE) (rule that; assumption)
  from LayerSystem_begin_layers [OF b2 a1]
  obtain a2 where a2: "map_of (layers s2) ka = Some a2"
    and hd2: "activeLayerId s1 = Some ka \<and> framebuffer a1 \<noteq> None \<longrightarrow> hasBeenDrawnTo a2"
    by (elim exE conjE) (rule that; assumption)
  have marked: "framebuffer a \<noteq> None \<longrightarrow> (\<exists>l. map_of (layers s2) ka = Some l \<and> hasBeenDrawnTo l)"
  proof
    assume "framebuffer a \<noteq> None"
    then have "framebuffer a1 \<noteq> None" using fb1 by simp
    then have "hasBeenDrawnTo a2" using hd2 act1 by simp
    with a2 show "\<exists>l. map_of (layers s2) ka = Some l \<and> hasBeenDrawnTo l" by simp
  qed
  have one: "length (activeLayers s2) \<le> 1" and sub: "set (activeLayers s2) \<subseteq> {kb}"
    using wellFormed_activeLayers [OF wf2] act2 by simp_all
  have eq': "LayerSystem_begin rb (p1, s1) =
           LayerSystem_begin rb (LayerSystem_end (emit (WarnAlreadyActive ka) p1, s1))"
    unfolding e by (rule eq)
  from act1 eq' act2 sub one marked show ?thesis by (intro conjI)
qed

section \<open>The example sketches\<close>

text \<open>The definitions that evaluate a concrete sketch.\<close>

lemmas layer_defs = Layer_new_def Layer_createFramebuffer_def createFramebuffer_def Layer_begin_def
  Layer_end_def Layer_dispose_def Layer_resize_def Layer_show_def Layer_hide_def emit_def
  clampOpacity_def String_of_def no_options_def NORMAL_def

lemmas system_defs = LayerSystem_createLayer_def LayerSystem_begin_def LayerSystem_end_def
  LayerSystem_removeLayer_def LayerSystem_getLayer_def getLayerById_def findLayer_def
  modifyLayer_def LayerSystem_fields_def LayerSystem_render_def LayerSystem_checkResize_def
  LayerSystem_getLayers_def LayerSystem_dispose_def drawActive_def drawInto_def beginTwice_def

lemmas compositor_defs = Compositor_render_def Compositor_ensureBuffers_def
  Compositor_ensureShader_def Compositor_renderLayer_def Compositor_new_def getBuffer_def
  setBuffer_def createShader_def Compositor_dispose_def

lemmas world_defs = world0_def host0_def twoLayers_def sameName_def lostBuffers_def paintedA_def
  shrunk_def resized_def noMemory_def drawingA_def

lemma reachable_world0: "reachable world0"
  unfolding world0_def by (rule reachable_new) (simp add: LayerSystem_new_def host0_def)

lemma reachable_twoLayers: "reachable twoLayers"
  unfolding twoLayers_def by (intro reachable_call reachable_world0)

lemma reachable_drawingA: "reachable drawingA"
  unfolding drawingA_def by (intro reachable_call reachable_twoLayers)

lemma reachable_lostBuffers: "reachable lostBuffers"
  unfolding lostBuffers_def by (intro reachable_call reachable_twoLayers)

section \<open>The active layer\<close>

lemma LayerSystem_end_inactive:
  "activeLayerId s = None \<Longrightarrow> LayerSystem_end (p, s) = (emit WarnNoActiveLayer p, s)"
  by (simp add: LayerSystem_end_def)

text \<open>
  C5, as the claim states it, fails when a layer is active: \<open>begin\<close> ends the active
  layer before it resolves the reference. With layer \<open>A\<close> (id 0) active,
  \<open>begin('nope')\<close> finds no layer, and yet afterwards no layer is active and \<open>A\<close> is
  marked \<open>hasBeenDrawnTo\<close>.
\<close>

theorem begin_missing_ends_active:
  "reachable drawingA \<and>
   findLayer (snd drawingA) (JStr ''nope'') = None \<and>
   activeLayerId (snd drawingA) = Some 0 \<and>
   map_option hasBeenDrawnTo (map_of (layers (snd drawingA)) 0) = Some False \<and>
   activeLayerId (snd (LayerSystem_begin (JStr ''nope'') drawingA)) = None \<and>
   map_option hasBeenDrawnTo
     (map_of (layers (snd (LayerSystem_begin (JStr ''nope'') drawingA))) 0) = Some True"
  using reachable_drawingA
  by (simp add: world_defs layer_defs system_defs Let_def)

text \<open>
  C5, amended. For every system state and every reference that resolves to no layer,
  \<open>begin(reference)\<close> prints the not-found error and activates nothing. When no layer
  is active the system state is unchanged; when layer \<open>a\<close> is active, the state is the
  one \<open>end()\<close> leaves, after the already-active warning, and nothing else changes. In
  both cases no layer is active afterwards.
\<close>

theorem LayerSystem_begin_missing:
  assumes "findLayer s r = None"
  shows "LayerSystem_begin r (p, s) =
     (case activeLayerId s of
        None \<Rightarrow> (emit (ErrorLayerNotFound r) p, s)
      | Some a \<Rightarrow>
          (case LayerSystem_end (emit (WarnAlreadyActive a) p, s) of
             (p1, s1) \<Rightarrow> (emit (ErrorLayerNotFound r) p1, s1))) \<and>
     activeLayerId (snd (LayerSystem_begin r (p, s))) = None"
proof (cases "activeLayerId s")
  case None
  with assms show ?thesis by (simp add: LayerSystem_begin_missing_eq)
next
  case (Some a)
  obtain p1 s1 where e: "LayerSystem_end (emit (WarnAlreadyActive a) p, s) = (p1, s1)" by force
  have "activeLayerId s1 = None" using LayerSystem_end_frame [OF e] by simp
  with Some e assms show ?thesis by (simp add: LayerSystem_begin_missing_eq)
qed

theorem LayerSystem_begin_missing_witness:
  "findLayer (snd drawingA) (JStr ''nope'') = None \<and>
   activeLayerId (snd drawingA) = Some 0 \<and>
   LayerSystem_begin (JStr ''nope'') drawingA =
     (case LayerSystem_end (emit (WarnAlreadyActive 0) (fst drawingA), snd drawingA) of
        (p1, s1) \<Rightarrow> (emit (ErrorLayerNotFound (JStr ''nope'')) p1, s1)) \<and>
   findLayer (snd twoLayers) (JNum 7) = None \<and>
   LayerSystem_begin (JNum 7) twoLayers = (emit (ErrorLayerNotFound (JNum 7)) (fst twoLayers), snd twoLayers)"
proof -
  have 1: "findLayer (snd drawingA) (JStr ''nope'') = None"
    and 2: "activeLayerId (snd drawingA) = Some 0"
    and 3: "findLayer (snd twoLayers) (JNum 7) = None"
    and 4: "activeLayerId (snd twoLayers) = None"
    by (simp_all add: world_defs layer_defs system_defs Let_def)
  show ?thesis
    using LayerSystem_begin_missing [OF 1, of "fst drawingA"]
      LayerSystem_begin_missing [OF 3, of "fst twoLayers"] 1 2 3 4
    by simp
qed

text \<open>
  C4, as the claim states it, fails for a layer that has lost its framebuffer: after the
  canvas shrank while the host could not allocate, \<open>render()\<close> left \<open>A\<close> and \<open>B\<close>
  without framebuffers; \<open>begin(A)\<close> makes \<open>A\<close> the active layer, \<open>begin(B)\<close> ends it,
  and \<open>Layer.end()\<close> returns at its guard without marking \<open>A\<close>.
\<close>

theorem begin_begin_unmarked:
  "reachable lostBuffers \<and>
   map_option fst (findLayer (snd lostBuffers) (JStr ''A'')) = Some 0 \<and>
   map_option fst (findLayer (snd lostBuffers) (JStr ''B'')) = Some 1 \<and>
   activeLayerId (snd (LayerSystem_begin (JStr ''A'') lostBuffers)) = Some 0 \<and>
   activeLayerId (snd (beginTwice (JStr ''A'') (JStr ''B'') lostBuffers)) = Some 1 \<and>
   map_option hasBeenDrawnTo
     (map_of (layers (snd (beginTwice (JStr ''A'') (JStr ''B'') lostBuffers))) 0) = Some False"
  using reachable_lostBuffers
  by (simp add: world_defs layer_defs system_defs compositor_defs Let_def)

text \<open>
  C4, amended. In every reachable state at most one layer is being drawn to, and it is
  the layer \<open>activeLayerId\<close> records. For all layers \<open>A\<close> and \<open>B\<close> of the system,
  \<open>begin(A)\<close> makes \<open>A\<close> active, and a following \<open>begin(B)\<close> is the already-active
  warning, then \<open>end()\<close>, then \<open>begin(B)\<close>: afterwards \<open>B\<close> is the active layer and the
  only one that can be drawn to, and \<open>A\<close> is marked \<open>hasBeenDrawnTo\<close> provided it has a
  framebuffer. \<open>end()\<close> with no active layer prints a warning and changes nothing.
\<close>

theorem at_most_one_active_layer:
  assumes "reachable (p, s)"
  shows "length (activeLayers s) \<le> 1 \<and> set (activeLayers s) \<subseteq> set_option (activeLayerId s) \<and>
    (\<forall>ra rb ka a kb b.
       findLayer s ra = Some (ka, a) \<longrightarrow> findLayer s rb = Some (kb, b) \<longrightarrow>
         activeLayerId (snd (LayerSystem_begin ra (p, s))) = Some ka \<and>
         beginTwice ra rb (p, s) =
           LayerSystem_begin rb
             (LayerSystem_end (emit (WarnAlreadyActive ka) (fst (LayerSystem_begin ra (p, s))),
                               snd (LayerSystem_begin ra (p, s)))) \<and>
         activeLayerId (snd (beginTwice ra rb (p, s))) = Some kb \<and>
         set (activeLayers (snd (beginTwice ra rb (p, s)))) \<subseteq> {kb} \<and>
         length (activeLayers (snd (beginTwice ra rb (p, s)))) \<le> 1 \<and>
         (framebuffer a \<noteq> None \<longrightarrow>
            (\<exists>l. map_of (layers (snd (beginTwice ra rb (p, s)))) ka = Some l \<and> hasBeenDrawnTo l))) \<and>
    (activeLayerId s = None \<longrightarrow> LayerSystem_end (p, s) = (emit WarnNoActiveLayer p, s))"
proof -
  have wf: "wellFormed s" using reachable_wellFormed [OF assms] by simp
  have twice: "activeLayerId (snd (LayerSystem_begin ra (p, s))) = Some ka \<and>
         beginTwice ra rb (p, s) =
           LayerSystem_begin rb
             (LayerSystem_end (emit (WarnAlreadyActive ka) (fst (LayerSystem_begin ra (p, s))),
                               snd (LayerSystem_begin ra (p, s)))) \<and>
         activeLayerId (snd (beginTwice ra rb (p, s))) = Some kb \<and>
         set (activeLayers (snd (beginTwice ra rb (p, s)))) \<subseteq> {kb} \<and>
         length (activeLayers (snd (beginTwice ra rb (p, s)))) \<le> 1 \<and>
         (framebuffer a \<noteq> None \<longrightarrow>
            (\<exists>l. map_of (layers (snd (beginTwice ra rb (p, s)))) ka = Some l \<and> hasBeenDrawnTo l))"
    if fa: "findLayer s ra = Some (ka, a)" and fb: "findLayer s rb = Some (kb, b)"
    for ra rb ka a kb b
  proof -
    obtain p1 s1 where b1: "LayerSystem_begin ra (p, s) = (p1, s1)" by force
    obtain p2 s2 where b2: "LayerSystem_begin rb (p1, s1) = (p2, s2)" by force
    have bt: "beginTwice ra rb (p, s) = (p2, s2)" by (simp add: beginTwice_def b1 b2)
    show ?thesis
      unfolding bt b1 fst_conv snd_conv
      using begin_begin [OF wf fa fb b1 b2] unfolding b2 .
  qed
  show ?thesis
    using wellFormed_activeLayers [OF wf] twice LayerSystem_end_inactive by blast
qed

theorem at_most_one_active_layer_witness:
  "activeLayers (snd drawingA) = [0] \<and>
   activeLayerId (snd (beginTwice (JStr ''A'') (JNum 1) twoLayers)) = Some 1 \<and>
   (\<exists>l. map_of (layers (snd (beginTwice (JStr ''A'') (JNum 1) twoLayers))) 0 = Some l \<and>
        hasBeenDrawnTo l) \<and>
   LayerSystem_end twoLayers = (emit WarnNoActiveLayer (fst twoLayers), snd twoLayers)"
proof -
  obtain a where fa: "findLayer (snd twoLayers) (JStr ''A'') = Some (0, a)"
    and fba: "framebuffer a \<noteq> None"
    by (simp add: world_defs layer_defs system_defs Let_def)
  obtain b where fb: "findLayer (snd twoLayers) (JNum 1) = Some (1, b)"
    by (simp add: world_defs layer_defs system_defs Let_def)
  have none: "activeLayerId (snd twoLayers) = None"
    by (simp add: world_defs layer_defs system_defs Let_def)
  have r: "reachable (fst twoLayers, snd twoLayers)" using reachable_twoLayers by simp
  have d: "activeLayers (snd drawingA) = [0]"
    by (simp add: world_defs layer_defs system_defs Let_def activeLayers_def isDrawing_def)
  note claim = at_most_one_active_layer [OF r]
  note twice = claim [THEN conjunct2, THEN conjunct2, THEN conjunct1, rule_format, OF fa fb,
      unfolded prod.collapse]
  note ended = claim [THEN conjunct2, THEN conjunct2, THEN conjunct2, rule_format, OF none,
      unfolded prod.collapse]
  note active = twice [THEN conjunct2, THEN conjunct2, THEN conjunct1]
  note marked = twice [THEN conjunct2, THEN conjunct2, THEN conjunct2, THEN conjunct2,
      THEN conjunct2, rule_format, OF fba]
  from d active marked ended show ?thesis
    by (intro conjI)
qed

section \<open>Removing a layer whose name is shared\<close>


lemma reachable_sameName: "reachable sameName"
  unfolding sameName_def by (intro reachable_call reachable_world0)

lemma delete_map_of: "map_of (AList.delete k al) k' = (if k' = k then None else map_of al k')"
  by (simp add: delete_conv')

lemma LayerSystem_end_other:
  assumes "LayerSystem_end (p, s) = (p', s')" and "activeLayerId s = Some a" and "k \<noteq> a"
  shows "map_of (layers s') k = map_of (layers s) k"
proof (cases "map_of (layers s) a")
  case None
  with assms show ?thesis by (auto simp: LayerSystem_end_def)
next
  case (Some l)
  obtain p1 l1 where e: "Layer_end p l = (p1, l1)" by force
  have "s' = (modifyLayer a (\<lambda>_. l1) s)
      \<lparr>ui := map_option (\<lambda>calls. calls @ [UiScheduleThumbnailUpdate (lid l1)]) (ui s),
       activeLayerId := None\<rparr>"
    using assms(1,2) Some e by (simp add: LayerSystem_end_def)
  then have "layers s' = layers (modifyLayer a (\<lambda>_. l1) s)" by simp
  then show ?thesis using assms(3) by (simp add: modifyLayer_map_of)
qed

text \<open>
  C10. In every reachable state, for layers \<open>a\<close> and \<open>b\<close> with different ids and the
  same name, \<open>removeLayer\<close> with the id of \<open>a\<close> deletes the entry of the shared name:
  afterwards \<open>getLayer(name)\<close> is \<open>null\<close>, although \<open>b\<close> is still in the system,
  unchanged, and found by its id.
\<close>

theorem removeLayer_deletes_shared_name:
  assumes "reachable (p, s)"
    and "map_of (layers s) ia = Some a" and "map_of (layers s) ib = Some b"
    and "ia \<noteq> ib" and "name a = name b"
  shows "LayerSystem_getLayer (JStr (name b)) (snd (LayerSystem_removeLayer (JNum ia) (p, s))) = None \<and>
         LayerSystem_getLayer (JNum ia) (snd (LayerSystem_removeLayer (JNum ia) (p, s))) = None \<and>
         LayerSystem_getLayer (JNum ib) (snd (LayerSystem_removeLayer (JNum ia) (p, s))) = Some b"
proof -
  have wf: "wellFormed s" using reachable_wellFormed [OF assms(1)] by simp
  have ain: "(ia, a) \<in> set (layers s)" using assms(2) by (rule map_of_SomeD)
  then have ida: "lid a = ia" and na: "name a \<noteq> []"
    using wf unfolding wellFormed_def by blast+
  have found: "findLayer s (JNum ia) = Some (ia, a)"
    using assms(2) by (simp add: findLayer_def)
  obtain p1 s1 where mid:
    "(if activeLayerId s = Some ia then LayerSystem_end (p, s) else (p, s)) = (p1, s1)"
    by force
  have b1: "map_of (layers s1) ib = Some b"
  proof (cases "activeLayerId s = Some ia")
    case True
    with mid have "LayerSystem_end (p, s) = (p1, s1)" by simp
    from LayerSystem_end_other [OF this True] assms(3,4) show ?thesis by simp
  next
    case False
    with mid assms(3) show ?thesis by simp
  qed
  define s2 where "s2 = s1\<lparr>layerNames := (layerNames s1)(name a := None)\<rparr>"
  define s3 where "s3 = modifyLayer ia Layer_dispose s2"
  have res: "snd (LayerSystem_removeLayer (JNum ia) (p, s)) = s3\<lparr>layers := AList.delete ia (layers s3)\<rparr>"
    using found mid ida na by (simp add: LayerSystem_removeLayer_def Let_def s2_def s3_def)
  have names: "layerNames s3 (name b) = None"
    unfolding s3_def s2_def using assms(5) by simp
  have b3: "map_of (layers s3) ib = Some b"
    unfolding s3_def s2_def using b1 assms(4) by (simp add: modifyLayer_map_of)
  show ?thesis
    unfolding res LayerSystem_getLayer_def getLayerById_def findLayer_def
    using names b3 assms(4) by (simp add: delete_map_of)
qed

theorem removeLayer_deletes_shared_name_witness:
  "map_option lid (LayerSystem_getLayer (JStr ''x'') (snd sameName)) = Some 1 \<and>
   LayerSystem_getLayer (JStr ''x'') (snd (LayerSystem_removeLayer (JNum 0) sameName)) = None \<and>
   map_option name (LayerSystem_getLayer (JNum 1) (snd (LayerSystem_removeLayer (JNum 0) sameName)))
     = Some ''x''"
proof -
  obtain a where a: "map_of (layers (snd sameName)) 0 = Some a" and na: "name a = ''x''"
    by (simp add: world_defs layer_defs system_defs Let_def)
  obtain b where b: "map_of (layers (snd sameName)) 1 = Some b" and nb: "name b = ''x''"
    by (simp add: world_defs layer_defs system_defs Let_def)
  have r: "reachable (fst sameName, snd sameName)" using reachable_sameName by simp
  have later: "map_option lid (LayerSystem_getLayer (JStr ''x'') (snd sameName)) = Some 1"
    by (simp add: world_defs layer_defs system_defs Let_def)
  have "name a = name b" using na nb by simp
  from removeLayer_deletes_shared_name [OF r a b _ this, unfolded prod.collapse nb] later nb
  show ?thesis by simp
qed

section \<open>Disposal\<close>


lemma Layer_dispose_idem: "Layer_dispose (Layer_dispose l) = Layer_dispose l"
  by (simp add: Layer_dispose_def)

lemma Compositor_dispose_idem: "Compositor_dispose (Compositor_dispose c) = Compositor_dispose c"
  by (simp add: Compositor_dispose_def Let_def)

lemma LayerSystem_dispose_idem: "LayerSystem_dispose (LayerSystem_dispose w) = LayerSystem_dispose w"
proof (cases w)
  case (Pair p s)
  obtain p1 s1 where mid:
    "(if activeLayerId s \<noteq> None then LayerSystem_end (p, s) else (p, s)) = (p1, s1)"
    by force
  have act: "activeLayerId s1 = None"
    using mid LayerSystem_end_frame by (cases "activeLayerId s") auto
  define s2 where "s2 = (if ui s1 \<noteq> None then s1\<lparr>ui := None\<rparr> else s1)"
  define t where "t = s2\<lparr>layers := [], compositor := Compositor_dispose (compositor s2)\<rparr>"
  have first: "LayerSystem_dispose (p, s) = (p1, t)"
    using mid by (simp add: LayerSystem_dispose_def Let_def t_def s2_def)
  have t: "activeLayerId t = None" "ui t = None" "layers t = []"
      "compositor t = Compositor_dispose (compositor s2)"
    using act by (simp_all add: t_def s2_def)
  have "LayerSystem_dispose (p1, t) = (p1, t)"
    using t by (simp add: LayerSystem_dispose_def Let_def Compositor_dispose_idem)
  then show ?thesis unfolding Pair first .
qed

text \<open>
  C9. \<open>dispose()\<close> is idempotent on \<open>Layer\<close>, \<open>Compositor\<close> and \<open>LayerSystem\<close>: in
  every state, reachable or not, the second call returns (no statement of the three
  methods throws, each access is guarded) and leaves the state of the first call,
  the console and the host included.
\<close>

theorem dispose_idempotent:
  "Layer_dispose (Layer_dispose l) = Layer_dispose l \<and>
   Compositor_dispose (Compositor_dispose c) = Compositor_dispose c \<and>
   LayerSystem_dispose (LayerSystem_dispose w) = LayerSystem_dispose w"
  by (simp add: Layer_dispose_idem Compositor_dispose_idem LayerSystem_dispose_idem)

lemma reachable_paintedA: "reachable paintedA"
  unfolding paintedA_def by (intro reachable_call reachable_world0)

theorem dispose_idempotent_witness:
  "reachable drawingA \<and> activeLayerId (snd drawingA) = Some 0 \<and>
   LayerSystem_dispose (LayerSystem_dispose drawingA) = LayerSystem_dispose drawingA \<and>
   layers (snd (LayerSystem_dispose drawingA)) = [] \<and>
   activeLayerId (snd (LayerSystem_dispose drawingA)) = None"
  using dispose_idempotent [of _ Compositor_new drawingA] reachable_drawingA
  by (simp add: world_defs layer_defs system_defs Let_def)

section \<open>Assigning a blend mode\<close>

lemma Layer_setBlendMode_stored:
  "blendMode (snd (Layer_setBlendMode m p l)) = (if isBlendMode m then m else NORMAL) \<and>
   console (fst (Layer_setBlendMode m p l)) =
     (if isBlendMode m then console p else console p @ [WarnInvalidBlendMode m])"
  by (simp add: Layer_setBlendMode_def emit_def)

text \<open>
  C7 on the code: \<open>createLayer('fx', {blendMode: 'FOO'})\<close> stores \<open>'FOO'\<close> and prints
  nothing, where \<open>setBlendMode('FOO')\<close> on a layer stores \<open>NORMAL\<close> and warns.
\<close>

theorem createLayer_keeps_invalid_blendMode:
  "\<not> isBlendMode (JStr ''FOO'') \<and>
   (case LayerSystem_createLayer ''fx'' (no_options\<lparr>opt_blendMode := Some (JStr ''FOO'')\<rparr>) world0 of
      (Inr l, p, s) \<Rightarrow>
         blendMode l = JStr ''FOO'' \<and> console p = [] \<and>
         map_option blendMode (LayerSystem_getLayer (JStr ''fx'') s) = Some (JStr ''FOO'')
    | (Inl e, p, s) \<Rightarrow> False) \<and>
   (case LayerSystem_createLayer ''fx'' no_options world0 of
      (Inr l, p, s) \<Rightarrow>
         blendMode (snd (Layer_setBlendMode (JStr ''FOO'') p l)) = NORMAL \<and>
         console (fst (Layer_setBlendMode (JStr ''FOO'') p l)) = [WarnInvalidBlendMode (JStr ''FOO'')]
    | (Inl e, p, s) \<Rightarrow> False)"
  by (simp add: world_defs layer_defs system_defs Let_def isBlendMode_def BlendModes_def
      Layer_setBlendMode_def)


section \<open>Resize propagation\<close>


lemma callReturns_Suc: "callReturns outcomes (Suc i) = callReturns (tl outcomes) i"
  by (cases outcomes) (simp_all add: callReturns_def)

lemma createFramebuffer_outcome:
  "createFramebuffer p w h d dep aa = (fbo, p') \<Longrightarrow>
   (fbo \<noteq> None) = callReturns (createFramebuffer_outcomes p) 0 \<and>
   createFramebuffer_outcomes p' = tl (createFramebuffer_outcomes p)"
  by (cases "createFramebuffer_outcomes p")
     (auto simp: createFramebuffer_def Let_def callReturns_def split: if_splits)

lemma Layer_createFramebuffer_outcome:
  assumes "Layer_createFramebuffer p l = (fbo, p')"
  shows "(fbo \<noteq> None) = callReturns (createFramebuffer_outcomes p) 0 \<and>
         createFramebuffer_outcomes p' = tl (createFramebuffer_outcomes p) \<and>
         p_width p' = p_width p \<and> p_height p' = p_height p \<and>
         p_pixelDensity p' = p_pixelDensity p"
proof -
  obtain fbo1 p1 where c: "createFramebuffer p (width l) (height l) (density l)
            (if depth l \<noteq> JUndefined then Some (depth l) else None)
            (if antialias l \<noteq> JUndefined then Some (antialias l) else None) = (fbo1, p1)"
    by force
  have "fbo = fbo1 \<and> (p' = p1 \<or> p' = emit (ErrorCreatingFramebuffer (name l)) p1)"
    using assms c by (cases fbo1) (auto simp: Layer_createFramebuffer_def)
  then show ?thesis
    using createFramebuffer_outcome [OF c] createFramebuffer_host [OF c] by (auto simp: emit_def)
qed

lemma Layer_resize_resizedTo:
  assumes "Layer_resize w h d p l = (p', l')"
    and "w = p_width p" "h = p_height p" "d = p_pixelDensity p"
  shows "resizedTo w h d (callReturns (createFramebuffer_outcomes p) 0) l l' \<and>
         createFramebuffer_outcomes p' = tl (createFramebuffer_outcomes p) \<and>
         p_width p' = p_width p \<and> p_height p' = p_height p \<and> p_pixelDensity p' = p_pixelDensity p"
proof -
  define l2 where "l2 = l\<lparr>width := w, height := h, density := d, customSize := False\<rparr>"
  obtain fbo p1 where c: "Layer_createFramebuffer p l2 = (fbo, p1)" by force
  have res: "l' = l2\<lparr>framebuffer := fbo\<rparr>" "p' = p1"
    using assms c unfolding Layer_resize_def Let_def l2_def by simp_all
  note out = Layer_createFramebuffer_outcome [OF c]
  have "resizedTo w h d (callReturns (createFramebuffer_outcomes p) 0) l l'"
  proof (cases fbo)
    case None
    then have "\<not> callReturns (createFramebuffer_outcomes p) 0" using out by simp
    then show ?thesis unfolding resizedTo_def res None by (simp add: l2_def)
  next
    case (Some fb)
    then have ret: "callReturns (createFramebuffer_outcomes p) 0" using out by simp
    have "fb_width fb = w \<and> fb_height fb = h \<and> fb_density fb = d \<and>
          fb_pixels fb = transparent \<and> \<not> fb_drawing fb"
      using c Some Layer_createFramebuffer_Some [of p l2 fb p1] by (simp add: l2_def)
    then show ?thesis unfolding resizedTo_def res Some using ret by (simp add: l2_def)
  qed
  then show ?thesis using out res by simp
qed

lemma syncedBefore_0: "syncedBefore 0 xs = 0"
  by (simp add: syncedBefore_def)

lemma syncedBefore_Suc:
  "syncedBefore (Suc j) ((k, l) # xs) =
     (if customSize l then syncedBefore j xs else Suc (syncedBefore j xs))"
  by (simp add: syncedBefore_def)

lemma resizeLayers_exact:
  assumes "resizeLayers w h d p xs = (p', ys)"
    and "w = p_width p" "h = p_height p" "d = p_pixelDensity p"
  shows "map fst ys = map fst xs \<and>
         (\<forall>j < length xs.
            if customSize (snd (xs ! j)) then snd (ys ! j) = snd (xs ! j)
            else resizedTo w h d
                   (callReturns (createFramebuffer_outcomes p) (syncedBefore j xs))
                   (snd (xs ! j)) (snd (ys ! j)))"
  using assms
proof (induction xs arbitrary: p p' ys)
  case Nil
  then show ?case by simp
next
  case (Cons x xs)
  obtain k l where x: "x = (k, l)" by force
  obtain p1 l1 where h: "(if \<not> customSize l then Layer_resize w h d p l else (p, l)) = (p1, l1)"
    by force
  obtain p2 rest where r: "resizeLayers w h d p1 xs = (p2, rest)" by force
  have ys: "ys = (k, l1) # rest" using Cons.prems(1) x h r by simp
  have one: "(if customSize l then l1 = l \<and> createFramebuffer_outcomes p1 = createFramebuffer_outcomes p
              else resizedTo w h d (callReturns (createFramebuffer_outcomes p) 0) l l1 \<and>
                   createFramebuffer_outcomes p1 = tl (createFramebuffer_outcomes p)) \<and>
      p_width p1 = p_width p \<and> p_height p1 = p_height p \<and> p_pixelDensity p1 = p_pixelDensity p"
  proof (cases "customSize l")
    case True
    with h show ?thesis by simp
  next
    case False
    with h have "Layer_resize w h d p l = (p1, l1)" by simp
    from Layer_resize_resizedTo [OF this Cons.prems(2-4)] False show ?thesis by simp
  qed
  have dims: "w = p_width p1" "h = p_height p1" "d = p_pixelDensity p1"
    using one Cons.prems(2-4) by simp_all
  note IH = Cons.IH [OF r dims]
  have keys: "map fst ys = map fst (x # xs)" using IH x ys by simp
  have each: "if customSize (snd ((x # xs) ! j)) then snd (ys ! j) = snd ((x # xs) ! j)
            else resizedTo w h d
                   (callReturns (createFramebuffer_outcomes p) (syncedBefore j (x # xs)))
                   (snd ((x # xs) ! j)) (snd (ys ! j))"
    if j: "j < length (x # xs)" for j
  proof (cases j)
    case 0
    then show ?thesis using one x ys by (simp add: syncedBefore_0)
  next
    case (Suc j')
    then have j': "j' < length xs" using j by simp
    from IH j' have tail: "if customSize (snd (xs ! j')) then snd (rest ! j') = snd (xs ! j')
            else resizedTo w h d
                   (callReturns (createFramebuffer_outcomes p1) (syncedBefore j' xs))
                   (snd (xs ! j')) (snd (rest ! j'))"
      by simp
    show ?thesis
    proof (cases "customSize l")
      case True
      then have "createFramebuffer_outcomes p1 = createFramebuffer_outcomes p" using one by simp
      with tail True show ?thesis unfolding Suc x ys
        by (simp add: syncedBefore_Suc split: if_splits)
    next
      case False
      then have "createFramebuffer_outcomes p1 = tl (createFramebuffer_outcomes p)" using one by simp
      with tail False show ?thesis unfolding Suc x ys
        by (simp add: syncedBefore_Suc callReturns_Suc split: if_splits)
    qed
  qed
  show ?case using keys each by blast
qed

lemma LayerSystem_render_layers:
  assumes "LayerSystem_render cb (p, s) = (e, p', s')"
    and "(if autoResize s then LayerSystem_checkResize (p, s) else (p, s)) = (p1, s1)"
  shows "layers s' = layers s1 \<and> lastCanvasWidth s' = lastCanvasWidth s1 \<and>
         lastCanvasHeight s' = lastCanvasHeight s1 \<and> lastPixelDensity s' = lastPixelDensity s1"
proof -
  obtain e2 p2 c2 where c: "Compositor_render p1 (compositor s1) (LayerSystem_getLayers s1) cb = (e2, p2, c2)"
    by (rule prod_cases3)
  have "s' = s1\<lparr>compositor := c2\<rparr> \<or>
        s' = s1\<lparr>compositor := c2, ui := map_option (\<lambda>calls. calls @ [UiSyncState]) (ui s1)\<rparr>"
    using assms c by (cases e2) (auto simp: LayerSystem_render_def)
  then show ?thesis by auto
qed

text \<open>
  C6. With auto-resize enabled, \<open>render()\<close> compares the host's width, height and
  pixel density with the last-observed values. On a difference every layer with
  \<open>customSize = false\<close> is resized to the host's size and density: it stores them, and
  it has a new framebuffer of that size and density exactly when the host's
  \<open>createFramebuffer\<close> call for it returned (the layers are resized in map order, one
  call each), and none when that call threw. Every layer with \<open>customSize = true\<close> is
  the same as before, the keys and the order of the map are kept, and the last-observed
  values are the host's. Without a difference the layers are the same as before. This
  holds whether or not the compositor then throws.
\<close>

theorem render_resizes_synced_layers:
  assumes "autoResize s"
  shows "case LayerSystem_render cb (p, s) of
     (e, p', s') \<Rightarrow>
       (if p_width p \<noteq> lastCanvasWidth s \<or> p_height p \<noteq> lastCanvasHeight s \<or>
           p_pixelDensity p \<noteq> lastPixelDensity s
        then map fst (layers s') = map fst (layers s) \<and>
             (\<forall>j < length (layers s).
                if customSize (snd (layers s ! j)) then snd (layers s' ! j) = snd (layers s ! j)
                else resizedTo (p_width p) (p_height p) (p_pixelDensity p)
                       (callReturns (createFramebuffer_outcomes p) (syncedBefore j (layers s)))
                       (snd (layers s ! j)) (snd (layers s' ! j)))
        else layers s' = layers s) \<and>
       lastCanvasWidth s' = p_width p \<and> lastCanvasHeight s' = p_height p \<and>
       lastPixelDensity s' = p_pixelDensity p"
proof -
  obtain e p' s' where r: "LayerSystem_render cb (p, s) = (e, p', s')" by (rule prod_cases3)
  obtain p1 s1 where c: "LayerSystem_checkResize (p, s) = (p1, s1)" by force
  have same: "layers s' = layers s1 \<and> lastCanvasWidth s' = lastCanvasWidth s1 \<and>
         lastCanvasHeight s' = lastCanvasHeight s1 \<and> lastPixelDensity s' = lastPixelDensity s1"
    using LayerSystem_render_layers [OF r] assms c by simp
  show ?thesis
  proof (cases "p_width p \<noteq> lastCanvasWidth s \<or> p_height p \<noteq> lastCanvasHeight s \<or>
           p_pixelDensity p \<noteq> lastPixelDensity s")
    case True
    obtain p2 ys where rl: "resizeLayers (p_width p) (p_height p) (p_pixelDensity p) p (layers s) = (p2, ys)"
      by force
    have s1: "layers s1 = ys" "lastCanvasWidth s1 = p_width p" "lastCanvasHeight s1 = p_height p"
        "lastPixelDensity s1 = p_pixelDensity p"
      using c True rl by (auto simp: LayerSystem_checkResize_def Let_def)
    note exact = resizeLayers_exact [OF rl refl refl refl]
    have lay: "layers s' = ys" using same s1 by simp
    show ?thesis
      unfolding r prod.case lay using True exact same s1 by simp
  next
    case False
    then have "s1 = s" using c by (auto simp: LayerSystem_checkResize_def Let_def)
    with False same show ?thesis unfolding r by simp
  qed
qed


lemma resizedTo_fields:
  assumes "resizedTo w h d returned l l'"
  shows "width l' = w \<and> height l' = h \<and> density l' = d \<and> \<not> customSize l' \<and>
         (if returned then
            map_option (\<lambda>fb. (fb_width fb, fb_height fb, fb_density fb)) (framebuffer l') =
              Some (w, h, d)
          else framebuffer l' = None)"
proof -
  from assms have eq: "l' = l\<lparr>width := w, height := h, density := d, customSize := False,
             framebuffer := framebuffer l'\<rparr>"
    unfolding resizedTo_def by (rule conjunct1)
  have "width l' = width (l\<lparr>width := w, height := h, density := d, customSize := False,
             framebuffer := framebuffer l'\<rparr>)"
       "height l' = height (l\<lparr>width := w, height := h, density := d, customSize := False,
             framebuffer := framebuffer l'\<rparr>)"
       "density l' = density (l\<lparr>width := w, height := h, density := d, customSize := False,
             framebuffer := framebuffer l'\<rparr>)"
       "customSize l' = customSize (l\<lparr>width := w, height := h, density := d, customSize := False,
             framebuffer := framebuffer l'\<rparr>)"
    using eq by (rule arg_cong)+
  then have sizes: "width l' = w \<and> height l' = h \<and> density l' = d \<and> \<not> customSize l'" by simp
  from assms have "if returned then
        (case framebuffer l' of
           None \<Rightarrow> False
         | Some fb \<Rightarrow> fb_width fb = w \<and> fb_height fb = h \<and> fb_density fb = d \<and>
                      fb_pixels fb = transparent \<and> \<not> fb_drawing fb)
      else framebuffer l' = None"
    unfolding resizedTo_def by (rule conjunct2)
  then have "if returned then
            map_option (\<lambda>fb. (fb_width fb, fb_height fb, fb_density fb)) (framebuffer l') =
              Some (w, h, d)
          else framebuffer l' = None"
    by (cases returned; cases "framebuffer l'") simp_all
  with sizes show ?thesis by simp
qed

lemma two_layers_same_keys:
  assumes "xs = [(0 :: int, a), (1, b)]" and "map fst ys = map fst xs"
  obtains a' b' where "ys = [(0, a'), (1, b')]"
proof -
  from assms have "map fst ys = [0, 1]" by simp
  then obtain y0 y1 where ys: "ys = [y0, y1]" "fst y0 = 0" "fst y1 = 1"
    by (auto simp: map_eq_Cons_conv)
  then have "ys = [(0, snd y0), (1, snd y1)]"
    by (metis prod.collapse)
  then show ?thesis by (rule that)
qed

lemma reachable_resized: "reachable resized"
  unfolding resized_def by (intro reachable_call reachable_paintedA)

lemma reachable_shrunk: "reachable shrunk"
  unfolding shrunk_def by (intro reachable_call reachable_paintedA)

theorem render_resizes_synced_layers_witness:
  "reachable resized \<and>
   createFramebuffer_outcomes (fst resized) = [] \<and>
   map (\<lambda>(k, l). (k, customSize l, width l, height l, density l)) (layers (snd resized)) =
     [(0, True, 800, 600, 1), (1, False, 800, 600, 1)] \<and>
   (case LayerSystem_render False resized of
      (e, p', s') \<Rightarrow>
        e = None \<and>
        map_of (layers s') 0 = map_of (layers (snd resized)) 0 \<and>
        map (\<lambda>(k, l). (k, customSize l, width l, height l, density l,
                       map_option (\<lambda>fb. (fb_width fb, fb_height fb, fb_density fb)) (framebuffer l)))
            (layers s') =
          [(0, True, 800, 600, 1, Some (800, 600, 1)), (1, False, 400, 300, 2, Some (400, 300, 2))] \<and>
        (lastCanvasWidth s', lastCanvasHeight s', lastPixelDensity s') = (400, 300, 2)) \<and>
   reachable shrunk \<and>
   createFramebuffer_outcomes (fst shrunk) = [False] \<and>
   (case LayerSystem_render False shrunk of
      (e, p', s') \<Rightarrow>
        map (\<lambda>(k, l). (k, customSize l, width l, height l, density l, framebuffer l = None))
            (layers s') =
          [(0, True, 800, 600, 1, False), (1, False, 400, 600, 1, True)])"
proof -
  have first: "(case LayerSystem_render False resized of
      (e, p', s') \<Rightarrow>
        e = None \<and>
        map_of (layers s') 0 = map_of (layers (snd resized)) 0 \<and>
        map (\<lambda>(k, l). (k, customSize l, width l, height l, density l,
                       map_option (\<lambda>fb. (fb_width fb, fb_height fb, fb_density fb)) (framebuffer l)))
            (layers s') =
          [(0, True, 800, 600, 1, Some (800, 600, 1)), (1, False, 400, 300, 2, Some (400, 300, 2))] \<and>
        (lastCanvasWidth s', lastCanvasHeight s', lastPixelDensity s') = (400, 300, 2))"
  proof -
    have auto_on: "autoResize (snd resized)"
      by (simp add: world_defs layer_defs system_defs Let_def)
    have host: "p_width (fst resized) = 400" "p_height (fst resized) = 300"
        "p_pixelDensity (fst resized) = 2" "lastCanvasWidth (snd resized) = 800"
        "createFramebuffer_outcomes (fst resized) = []"
      by (simp_all add: world_defs layer_defs system_defs Let_def)
    have noexn: "fst (LayerSystem_render False resized) = None"
      by (simp add: world_defs layer_defs system_defs compositor_defs Let_def getBlendModeIndex_def)
    obtain e p' s' where r: "LayerSystem_render False resized = (e, p', s')" by (rule prod_cases3)
    obtain a b where ls: "layers (snd resized) = [(0, a), (1, b)]" and ca: "customSize a"
      and cb: "\<not> customSize b"
      and fa: "(width a, height a, density a,
                map_option (\<lambda>fb. (fb_width fb, fb_height fb, fb_density fb)) (framebuffer a)) =
               (800, 600, 1, Some (800, 600, 1))"
      by (simp add: world_defs layer_defs system_defs Let_def)
    note claim = render_resizes_synced_layers [where s = "snd resized" and cb = False
        and p = "fst resized", OF auto_on, unfolded prod.collapse r prod.case host]
    from claim have keys: "map fst (layers s') = map fst (layers (snd resized))"
      and each: "\<forall>j < length (layers (snd resized)).
                if customSize (snd (layers (snd resized) ! j))
                then snd (layers s' ! j) = snd (layers (snd resized) ! j)
                else resizedTo 400 300 2 (callReturns [] (syncedBefore j (layers (snd resized))))
                       (snd (layers (snd resized) ! j)) (snd (layers s' ! j))"
      and last: "lastCanvasWidth s' = 400" "lastCanvasHeight s' = 300" "lastPixelDensity s' = 2"
      by simp_all
    from ls keys obtain a' b' where ls': "layers s' = [(0, a'), (1, b')]"
      by (rule two_layers_same_keys)
    have a': "a' = a" using each [rule_format, of 0] ca unfolding ls ls' by simp
    have "resizedTo 400 300 2 (callReturns [] (syncedBefore 1 [(0, a), (1, b)])) b b'"
      using each [rule_format, of 1] cb unfolding ls ls' by simp
    then have "resizedTo 400 300 2 True b b'" by (simp add: callReturns_def)
    from resizedTo_fields [OF this]
    have fb': "width b' = 400 \<and> height b' = 300 \<and> density b' = 2 \<and> \<not> customSize b' \<and>
        map_option (\<lambda>fb. (fb_width fb, fb_height fb, fb_density fb)) (framebuffer b') =
          Some (400, 300, 2)"
      by simp
    have e: "e = None" using noexn r by simp
    show ?thesis
      unfolding r prod.case ls ls' a' using e fa ca fb' last by simp
  qed
  have second: "(case LayerSystem_render False shrunk of
      (e, p', s') \<Rightarrow>
        map (\<lambda>(k, l). (k, customSize l, width l, height l, density l, framebuffer l = None))
            (layers s') =
          [(0, True, 800, 600, 1, False), (1, False, 400, 600, 1, True)])"
  proof -
    have auto_on: "autoResize (snd shrunk)"
      by (simp add: world_defs layer_defs system_defs Let_def)
    have host: "p_width (fst shrunk) = 400" "p_height (fst shrunk) = 600"
        "p_pixelDensity (fst shrunk) = 1" "lastCanvasWidth (snd shrunk) = 800"
        "createFramebuffer_outcomes (fst shrunk) = [False]"
      by (simp_all add: world_defs layer_defs system_defs Let_def)
    obtain e p' s' where r: "LayerSystem_render False shrunk = (e, p', s')" by (rule prod_cases3)
    obtain a b where ls: "layers (snd shrunk) = [(0, a), (1, b)]" and ca: "customSize a"
      and cb: "\<not> customSize b"
      and fa: "(width a, height a, density a, framebuffer a = None) = (800, 600, 1, False)"
      by (simp add: world_defs layer_defs system_defs Let_def)
    note claim = render_resizes_synced_layers [where s = "snd shrunk" and cb = False
        and p = "fst shrunk", OF auto_on, unfolded prod.collapse r prod.case host]
    from claim have keys: "map fst (layers s') = map fst (layers (snd shrunk))"
      and each: "\<forall>j < length (layers (snd shrunk)).
                if customSize (snd (layers (snd shrunk) ! j))
                then snd (layers s' ! j) = snd (layers (snd shrunk) ! j)
                else resizedTo 400 600 1 (callReturns [False] (syncedBefore j (layers (snd shrunk))))
                       (snd (layers (snd shrunk) ! j)) (snd (layers s' ! j))"
      by simp_all
    from ls keys obtain a' b' where ls': "layers s' = [(0, a'), (1, b')]"
      by (rule two_layers_same_keys)
    have a': "a' = a" using each [rule_format, of 0] ca unfolding ls ls' by simp
    have "resizedTo 400 600 1 (callReturns [False] (syncedBefore 1 [(0, a), (1, b)])) b b'"
      using each [rule_format, of 1] cb unfolding ls ls' by simp
    then have "resizedTo 400 600 1 False b b'"
      using ca by (simp add: callReturns_def syncedBefore_def)
    from resizedTo_fields [OF this]
    have fb': "width b' = 400 \<and> height b' = 600 \<and> density b' = 1 \<and> \<not> customSize b' \<and>
        framebuffer b' = None"
      by simp
    show ?thesis
      unfolding r prod.case ls ls' a' using fa ca fb' by simp
  qed
  have before: "createFramebuffer_outcomes (fst resized) = []"
      "map (\<lambda>(k, l). (k, customSize l, width l, height l, density l)) (layers (snd resized)) =
        [(0, True, 800, 600, 1), (1, False, 800, 600, 1)]"
      "createFramebuffer_outcomes (fst shrunk) = [False]"
    by (simp_all add: world_defs layer_defs system_defs Let_def)
  from reachable_resized reachable_shrunk before first second show ?thesis
    by (intro conjI)
qed

section \<open>The ping-pong pipeline\<close>










section \<open>The pipeline on the example sketches\<close>


text \<open>The definitions that evaluate the blending program at a fragment.\<close>

lemmas shader_defs = frag_main_def applyBlendMode_def withOpacity_def blendNormal_def vadd_def
  vscale_def vzip_def vec4_of_def rgb_def shaderPass_def getBlendModeIndex_def transparent_def
  red_image_def


lemma reachable_noMemory: "reachable noMemory"
  unfolding noMemory_def by (intro reachable_call reachable_twoLayers)



text \<open>A blend pass over an opaque accumulator is opaque, whatever the layer, its
  texture and its mask are: no blend pass gives a transparent pixel there.\<close>

lemma blendPass_opaque: "alpha (acc uv) = 1 \<Longrightarrow> alpha (blendPass acc l uv) = 1"
  by (simp add: blendPass_def shaderPass_def frag_main_def Let_def vec4_of_def)



lemma reachable_scenario: "reachable scenario"
  unfolding scenario_def by (intro reachable_call reachable_world0)






text \<open>
  C3 on the code. When the host cannot allocate a framebuffer at the first frame,
  \<open>_ensureBuffers\<close> lets the exception of \<open>createFramebuffer\<close> through and
  \<open>LayerSystem.render\<close> throws. When the allocation fails for layer \<open>B\<close> in
  \<open>_checkResize\<close>, the failure is logged and \<open>render\<close> returns, but the layer is not
  treated as invisible: the warning says it is skipped, and the blitted image is
  transparent where the composite of the remaining layer \<open>A\<close> is red.
\<close>

theorem render_throws_without_memory:
  "reachable noMemory \<and>
   fst (LayerSystem_render False noMemory) = Some HostError \<and>
   reachable shrunk \<and>
   (case LayerSystem_render False shrunk of
      (e, p', s') \<Rightarrow>
        e = None \<and>
        console p' = [ErrorCreatingFramebuffer ''B'', WarnLayerHasNoFramebuffer ''B''] \<and>
        (case last (canvas p') of
           DrawImage img \<Rightarrow> img (0, 0) = Vec4 0 0 0 0
         | _ \<Rightarrow> False) \<and>
        composite (filter (\<lambda>l. name l \<noteq> ''B'') (LayerSystem_getLayers s')) (0, 0) = Vec4 1 0 0 1)"
  using reachable_noMemory reachable_shrunk
  by (simp add: world_defs layer_defs system_defs compositor_defs Let_def
      shader_defs composite_def blendPass_def layerTexture_def passesGate_def)

end
